theory Spec2Isabelle
  imports Main "HOL-Library.Word"
begin

section \<open>Go library functions used by the reporters\<close>

text \<open>
  Go's \<^verbatim>\<open>int\<close> is a 64-bit two's-complement integer on the platforms the operator is
  built for; it is a \<open>64 word\<close> here, read as a signed number by \<open>sint\<close> and compared
  with the signed orders \<open>\<le>s\<close> and \<open><s\<close>.
\<close>

type_synonym go_int = "64 word"

subsection \<open>strconv.Itoa and strconv.Atoi\<close>

text \<open>The character of a decimal digit \<open>d < 10\<close>, and the digit of a character.\<close>

definition digit_char :: "nat \<Rightarrow> char" where
  "digit_char d = ''0123456789'' ! d"

definition digit_val :: "char \<Rightarrow> nat option" where
  "digit_val c =
     (let k = (of_char c :: nat) in if 48 \<le> k \<and> k \<le> 57 then Some (k - 48) else None)"

text \<open>The decimal digits of a natural number, most significant first; \<open>0\<close> is \<open>''0''\<close>.\<close>

fun digits :: "nat \<Rightarrow> string" where
  "digits n = (if n < 10 then [digit_char n] else digits (n div 10) @ [digit_char (n mod 10)])"

declare digits.simps [simp del]

text \<open>\<^verbatim>\<open>strconv.Itoa\<close>: a minus sign for a negative number, then the digits of the magnitude.\<close>

definition Itoa :: "go_int \<Rightarrow> string" where
  "Itoa n = (if sint n < 0 then CHR ''-'' # digits (nat (- sint n)) else digits (nat (sint n)))"

text \<open>The loop \<^verbatim>\<open>n = n*10 + ch\<close> over the bytes of the string; a byte that is no digit is a
  syntax error.\<close>

fun parse_digits :: "nat \<Rightarrow> string \<Rightarrow> nat option" where
  "parse_digits n [] = Some n"
| "parse_digits n (c # cs) =
     (case digit_val c of None \<Rightarrow> None | Some d \<Rightarrow> parse_digits (n * 10 + d) cs)"

text \<open>
  \<^verbatim>\<open>strconv.Atoi\<close>: an optional sign, then at least one decimal digit and nothing else; the
  value has to fit a 64-bit signed integer. \<open>None\<close> is the error result; the number
  returned beside an error is not used by the callers here.
\<close>

definition Atoi :: "string \<Rightarrow> go_int option" where
  "Atoi s =
     (case s of
        [] \<Rightarrow> None
      | c # cs \<Rightarrow>
          (let neg = (c = CHR ''-'');
               ds = (if c = CHR ''-'' \<or> c = CHR ''+'' then cs else s)
           in if ds = [] then None
              else (case parse_digits 0 ds of
                      None \<Rightarrow> None
                    | Some m \<Rightarrow>
                        if neg then (if m > 2 ^ 63 then None else Some (word_of_int (- int m)))
                        else (if m \<ge> 2 ^ 63 then None else Some (word_of_int (int m))))))"

subsection \<open>strings.Join\<close>

fun Join :: "string list \<Rightarrow> string \<Rightarrow> string" where
  "Join [] sep = []"
| "Join [x] sep = x"
| "Join (x # y # ys) sep = x @ sep @ Join (y # ys) sep"

subsection \<open>Errors\<close>

text \<open>A Go \<^verbatim>\<open>error\<close> value that is not nil, known by its message; a nil error is \<open>None\<close>
  of \<open>error option\<close>.\<close>

datatype error = Err string

fun Error :: "error \<Rightarrow> string" where
  "Error (Err s) = s"

text \<open>
  \<^verbatim>\<open>errorutil.NewAggregate\<close> of the Kubernetes library: nil for an empty list, else one error
  whose message joins the distinct messages in their order of first occurrence.
\<close>

definition aggregate_message :: "string list \<Rightarrow> string" where
  "aggregate_message msgs =
     (case rev (remdups (rev msgs)) of
        [m] \<Rightarrow> m
      | ms \<Rightarrow> ''['' @ Join ms '', '' @ '']'')"

definition NewAggregate :: "error list \<Rightarrow> error option" where
  "NewAggregate errlist =
     (if errlist = [] then None else Some (Err (aggregate_message (map Error errlist))))"

section \<open>Data of the new-bug reporter\<close>

text \<open>
  Records of the tracker and chat libraries, with the fields the reporters read or write.
  Several Go structs share field names; the records keep them, and a name is qualified
  with its record where it is not the last one declared.
\<close>

record AdvancedQuery =
  Field :: string
  Op :: string
  Value :: string

record Query =
  Classification :: "string list"
  Product :: "string list"
  Status :: "string list"
  Component :: "string list"
  Advanced :: "AdvancedQuery list"
  IncludeFields :: "string list"

record BugUpdate =
  Status :: string
  AssignedTo :: string

record TakeValue =
  ID :: go_int
  OldAssignee :: string

text \<open>An entry of the registry \<^verbatim>\<open>messagesToWatchAndUpdate\<close>. Times are nanoseconds since
  the epoch, durations nanoseconds.\<close>

record message =
  createdAt :: int
  ID :: go_int
  channelID :: string
  ts :: string

record Bug =
  ID :: go_int
  Status :: string
  AssignedTo :: string
  Resolution :: string

text \<open>Chat message options and blocks, as the calls of the source build them.\<close>

datatype element = ButtonBlockElement string string string

datatype block = SectionBlock string | ActionBlock string "element list"

datatype msg_option =
    MsgOptionBlocks "block list"
  | MsgOptionPostEphemeral string
  | MsgOptionText string

text \<open>An argument of a log or recorder format string: a number, a string, an error, or the
  \<^verbatim>\<open>NumError\<close> of a \<^verbatim>\<open>strconv\<close> function for an input.\<close>

datatype arg = AInt go_int | AStr string | AErr error | ANumError string string

text \<open>
  The calls a run makes on its collaborators, in order. A run of the model returns this
  trace beside its result, so that what was called, with what and when, can be stated.
\<close>

datatype effect =
    GetPersistentValue string
  | SetPersistentValue string string
  | Search Query
  | Recorder_Warningf string string "arg list"
  | klog_Infof string "arg list"
  | klog_Warningf string "arg list"
  | klog_Errorf string "arg list"
  | klog_Error "arg list"
  | Lock
  | Unlock
  | PostMessageChannel "msg_option list"
  | MessageChannel string
  | UpdateMessage string string "msg_option list"
  | GetUserProfile string
  | GetCachedBug go_int string
  | UpdateBug go_int BugUpdate
  | BugList string string
  | Sleep int

text \<open>
  The reporter's configuration: its components, and the helper functions of the packages
  \<^verbatim>\<open>bugutil\<close>, \<^verbatim>\<open>slack\<close> and \<^verbatim>\<open>encoding/json\<close>, which are parameters here.
\<close>

record NewBugReporter =
  components :: "string list"
  FormatBugMessage :: "Bug \<Rightarrow> string"
  Marshal :: "TakeValue \<Rightarrow> string"
  Unmarshal :: "string \<Rightarrow> error + TakeValue"
  SlackEmailToBugzilla :: "string \<Rightarrow> string"

definition takeBlockerID :: "NewBugReporter \<Rightarrow> string" where
  "takeBlockerID c = ''new-bugs-reporter/take-'' @ Join (components c) ''-''"

text \<open>
  Modelled from the spec: the cursor store behind \<^verbatim>\<open>GetPersistentValue\<close> and
  \<^verbatim>\<open>SetPersistentValue\<close> (package \<^verbatim>\<open>controller\<close>) is a key/value store of strings; a read
  of a key never written returns the empty string, a write that succeeds replaces the
  value, and a write that fails leaves it as it was.

  The state a run works on: that store and the registry.
\<close>

record state =
  persistent :: "string \<Rightarrow> string"
  messagesToWatchAndUpdate :: "message list"

section \<open>The scanner\<close>

definition scan_query :: "string list \<Rightarrow> go_int \<Rightarrow> Query" where
  "scan_query comps lastID =
     (let aq = \<lparr>Field = ''bug_id'', Op = ''greaterthan'', Value = Itoa lastID\<rparr>;
          aq = (if lastID = 0
                then \<lparr>Field = ''creation_ts'', Op = ''greaterthaneq'', Value = ''-168h''\<rparr>
                else aq)
      in \<lparr>Classification = [''Red Hat''],
          Product = [''OpenShift Container Platform''],
          Query.Status = [''NEW''],
          Component = comps,
          Advanced = [aq],
          IncludeFields = [''id'', ''assigned_to'', ''status'', ''severity'', ''priority'',
            ''component'', ''summary'', ''cf_cust_facing'', ''target_release'',
            ''last_change_time'', ''reporter'']\<rparr>)"

text \<open>\<^verbatim>\<open>getNewBugs\<close>: the client's search is the first argument.\<close>

definition getNewBugs ::
  "(Query \<Rightarrow> error + Bug list) \<Rightarrow> string list \<Rightarrow> go_int \<Rightarrow> error + Bug list" where
  "getNewBugs client_Search comps lastID = client_Search (scan_query comps lastID)"

section \<open>The sync cycle\<close>

text \<open>
  What the collaborators answer during one cycle: whether the cursor read and the cursor
  write fail, what the search returns for the query it is given, what the chat answers to
  the post of the loop's \<open>i\<close>-th iteration (an error, or channel and timestamp), and the
  clock reading taken in that iteration.
\<close>

record sync_env =
  GetPersistentValue_error :: "error option"
  Search_result :: "Query \<Rightarrow> error + Bug list"
  PostMessageChannel_result :: "nat \<Rightarrow> error + string \<times> string"
  time_Now :: "nat \<Rightarrow> int"
  SetPersistentValue_error :: "error option"

definition stateKey :: "NewBugReporter \<Rightarrow> string" where
  "stateKey c = ''new-bug-reporter.state-'' @ Join (components c) ''-''"

text \<open>The variables the loop over \<^verbatim>\<open>newBugs\<close> changes, and the calls it has made.\<close>

record loop_state =
  lastID :: go_int
  registry :: "message list"
  errs :: "error list"
  calls :: "effect list"

fun post_loop ::
  "NewBugReporter \<Rightarrow> sync_env \<Rightarrow> nat \<Rightarrow> Bug list \<Rightarrow> loop_state \<Rightarrow> loop_state" where
  "post_loop c env i [] ls = ls"
| "post_loop c env i (b # bs) ls =
     (let lastID' = (if lastID ls <s ID b then ID b else lastID ls);
          val = Marshal c \<lparr>TakeValue.ID = ID b, OldAssignee = AssignedTo b\<rparr>;
          post = PostMessageChannel
                   [MsgOptionBlocks
                      [SectionBlock (FormatBugMessage c b),
                       ActionBlock (takeBlockerID c)
                         [ButtonBlockElement ''btn'' val ''Take this Bug'']]];
          registry' =
            (case PostMessageChannel_result env i of
               Inl err \<Rightarrow> registry ls
             | Inr (ch, t) \<Rightarrow>
                 registry ls @
                   [\<lparr>createdAt = time_Now env i, message.ID = ID b, channelID = ch, ts = t\<rparr>])
      in post_loop c env (Suc i) bs
           \<lparr>lastID = lastID', registry = registry', errs = errs ls, calls = calls ls @ [post]\<rparr>)"

text \<open>
  The deferred function of \<^verbatim>\<open>sync\<close>: it writes the cursor \<open>n\<close>, the value of \<^verbatim>\<open>lastID\<close>
  when the function returns, and a failure of the write becomes the result when the cycle
  had no error of its own.
\<close>

definition persist ::
  "NewBugReporter \<Rightarrow> sync_env \<Rightarrow> go_int \<Rightarrow> error option \<times> state \<times> effect list
     \<Rightarrow> error option \<times> state \<times> effect list" where
  "persist c env n r =
     (case r of (err, st, tr) \<Rightarrow>
        (let tr' = tr @ [SetPersistentValue (stateKey c) (Itoa n)]
         in case SetPersistentValue_error env of
              None \<Rightarrow> (err, st\<lparr>persistent := (persistent st)(stateKey c := Itoa n)\<rparr>, tr')
            | Some persistErr \<Rightarrow> ((if err = None then Some persistErr else err), st, tr')))"

text \<open>
  \<^verbatim>\<open>sync\<close>: the result is the error returned, the state after the cycle and the calls made.
  The deferred unlock runs before the deferred cursor write, as Go runs deferred calls
  last in, first out.
\<close>

definition sync ::
  "NewBugReporter \<Rightarrow> sync_env \<Rightarrow> state \<Rightarrow> error option \<times> state \<times> effect list" where
  "sync c env st =
     (case GetPersistentValue_error env of
        Some err \<Rightarrow> (Some err, st, [GetPersistentValue (stateKey c)])
      | None \<Rightarrow>
          (let s = persistent st (stateKey c);
               (lastID0, warn) =
                 (if s \<noteq> []
                  then (case Atoi s of
                          Some n \<Rightarrow> (n, [])
                        | None \<Rightarrow>
                            (0, [klog_Warningf ''Cannot parse state value for %s: %v''
                                   [AStr (stateKey c), ANumError ''Atoi'' s]]))
                  else (0, []));
               tr = GetPersistentValue (stateKey c) # warn
                      @ [Search (scan_query (components c) lastID0)]
           in case getNewBugs (Search_result env) (components c) lastID0 of
                Inl err \<Rightarrow>
                  persist c env lastID0
                    (Some err, st, tr @ [Recorder_Warningf ''BuglistFailed'' (Error err) []])
              | Inr newBugs \<Rightarrow>
                  (let ls = post_loop c env 0 newBugs
                              \<lparr>lastID = lastID0, registry = messagesToWatchAndUpdate st,
                               errs = [], calls = []\<rparr>
                   in persist c env (lastID ls)
                        (NewAggregate (errs ls),
                         st\<lparr>messagesToWatchAndUpdate := registry ls\<rparr>,
                         tr @ [Lock] @ calls ls @ [Unlock]))))"

text \<open>
  The cursor as the cycle reads it: the number stored under the reporter's key, and \<open>0\<close>
  when nothing is stored or the stored string is no number.
\<close>

definition cursor :: "NewBugReporter \<Rightarrow> state \<Rightarrow> go_int" where
  "cursor c st =
     (let s = persistent st (stateKey c)
      in if s \<noteq> [] then (case Atoi s of Some n \<Rightarrow> n | None \<Rightarrow> 0) else 0)"

text \<open>A sequence of cycles, one environment for each: the states before, between and after
  them.\<close>

fun sync_cycles :: "NewBugReporter \<Rightarrow> sync_env list \<Rightarrow> state \<Rightarrow> state list" where
  "sync_cycles c [] st = [st]"
| "sync_cycles c (env # envs) st = st # sync_cycles c envs (fst (snd (sync c env st)))"

text \<open>The cursor writes and the searches of a trace, and what a trace reports to the
  recorder or the log.\<close>

fun cursor_writes :: "effect list \<Rightarrow> string list" where
  "cursor_writes [] = []"
| "cursor_writes (SetPersistentValue k v # tr) = v # cursor_writes tr"
| "cursor_writes (e # tr) = cursor_writes tr"

fun searches :: "effect list \<Rightarrow> Query list" where
  "searches [] = []"
| "searches (Search q # tr) = q # searches tr"
| "searches (e # tr) = searches tr"

fun reports :: "effect list \<Rightarrow> effect list" where
  "reports [] = []"
| "reports (Recorder_Warningf r f as # tr) = Recorder_Warningf r f as # reports tr"
| "reports (klog_Infof f as # tr) = klog_Infof f as # reports tr"
| "reports (klog_Warningf f as # tr) = klog_Warningf f as # reports tr"
| "reports (klog_Errorf f as # tr) = klog_Errorf f as # reports tr"
| "reports (klog_Error as # tr) = klog_Error as # reports tr"
| "reports (e # tr) = reports tr"

text \<open>The largest id of a list of bugs, in the signed order, starting from \<open>n\<close>.\<close>

fun max_id :: "go_int \<Rightarrow> Bug list \<Rightarrow> go_int" where
  "max_id n [] = n"
| "max_id n (b # bs) = max_id (if n <s ID b then ID b else n) bs"

text \<open>The post the loop makes for a bug, the warning of an unparsable cursor, and the
  value of \<^verbatim>\<open>lastID\<close> at the end of a cycle that has read the cursor.\<close>

definition post_call :: "NewBugReporter \<Rightarrow> Bug \<Rightarrow> effect" where
  "post_call c b =
     PostMessageChannel
       [MsgOptionBlocks
          [SectionBlock (FormatBugMessage c b),
           ActionBlock (takeBlockerID c)
             [ButtonBlockElement ''btn''
                (Marshal c \<lparr>TakeValue.ID = ID b, OldAssignee = AssignedTo b\<rparr>)
                ''Take this Bug'']]]"

definition parse_warning :: "NewBugReporter \<Rightarrow> state \<Rightarrow> effect list" where
  "parse_warning c st =
     (let s = persistent st (stateKey c)
      in if s \<noteq> []
         then (case Atoi s of
                 Some n \<Rightarrow> []
               | None \<Rightarrow>
                   [klog_Warningf ''Cannot parse state value for %s: %v''
                      [AStr (stateKey c), ANumError ''Atoi'' s]])
         else [])"

definition cycle_lastID :: "NewBugReporter \<Rightarrow> sync_env \<Rightarrow> state \<Rightarrow> go_int" where
  "cycle_lastID c env st =
     (case Search_result env (scan_query (components c) (cursor c st)) of
        Inl err \<Rightarrow> cursor c st
      | Inr newBugs \<Rightarrow> max_id (cursor c st) newBugs)"

section \<open>The reconciliation loop\<close>

text \<open>
  \<^verbatim>\<open>GetCachedBug\<close> returns a pointer and an error. With a nil error the pointer is a bug
  (\<open>Fetched\<close>) or nil (\<open>FetchedNil\<close>); with an error the pointer may be nil or not
  (\<open>FetchFailed\<close>).
\<close>

datatype fetch_result = Fetched Bug | FetchFailed "Bug option" error | FetchedNil

text \<open>A call of a collaborator returns its result or panics with a value, shown here by
  its text.\<close>

datatype 'a call = Returns 'a | Panics string

text \<open>The value of the panic of a nil pointer dereference.\<close>

definition nil_dereference :: string where
  "nil_dereference = ''runtime error: invalid memory address or nil pointer dereference''"

text \<open>
  What the collaborators answer during one pass, by the registry entry whose iteration
  asks: the clock reading of the age check, the tracker's answer to the fetch, and the
  chat's answer to the edit. The fetch and the edit may panic; the construction of the
  tracker client before the lock and the formatting of a bug are taken not to.
\<close>

record pass_env =
  Now_for :: "message \<Rightarrow> int"
  GetCachedBug_for :: "message \<Rightarrow> fetch_result call"
  UpdateMessage_for :: "message \<Rightarrow> error option call"

definition Hour :: int where
  "Hour = 3600 * 1000000000"

definition Before :: "int \<Rightarrow> int \<Rightarrow> bool" where
  "Before t u \<longleftrightarrow> t < u"

definition Add :: "int \<Rightarrow> int \<Rightarrow> int" where
  "Add t d = t + d"

text \<open>The first loop: entries older than a month are left out.\<close>

fun notTooOldMessages :: "pass_env \<Rightarrow> message list \<Rightarrow> message list" where
  "notTooOldMessages env [] = []"
| "notTooOldMessages env (m # ms) =
     (if Before (createdAt m) (Add (Now_for env m) (- Hour * 24 * 30))
      then notTooOldMessages env ms
      else m # notTooOldMessages env ms)"

text \<open>The separator of the source's format string for an assigned bug: a space, the en
  dash U+2013 (three bytes in UTF-8), and \<^verbatim>\<open>" assigned to "\<close>.\<close>

definition assigned_to :: string where
  "assigned_to = '' '' @ [CHR 0xE2, CHR 0x80, CHR 0x93] @ '' assigned to ''"

text \<open>
  One iteration of the second loop: the entry is kept, or dropped after the edit of its
  notification, or the iteration panics: in the fetch, on the nil pointer of a fetch that
  returned neither a bug nor an error (\<^verbatim>\<open>b.Status\<close>), or in the edit. The calls made are
  the second component; a call that panics has been made.
\<close>

datatype step = Keep | Drop | Fault string

definition reconcile_entry :: "NewBugReporter \<Rightarrow> pass_env \<Rightarrow> message \<Rightarrow> step \<times> effect list" where
  "reconcile_entry c env m =
     (case GetCachedBug_for env m of
        Panics v \<Rightarrow> (Fault v, [GetCachedBug (message.ID m) []])
      | Returns (FetchFailed b err) \<Rightarrow>
          (Keep,
           [GetCachedBug (message.ID m) [],
            klog_Errorf ''failed to get bug %d: %v'' [AInt (message.ID m), AErr err]])
      | Returns FetchedNil \<Rightarrow> (Fault nil_dereference, [GetCachedBug (message.ID m) []])
      | Returns (Fetched b) \<Rightarrow>
          if Status b = ''NEW''
          then (Keep, [GetCachedBug (message.ID m) []])
          else
            (let text = FormatBugMessage c b @ assigned_to @ AssignedTo b;
                 tr = [GetCachedBug (message.ID m) [],
                       klog_Infof ''Updating message to: %v'' [AStr text],
                       UpdateMessage (channelID m) (ts m) [MsgOptionBlocks [SectionBlock text]]]
             in case UpdateMessage_for env m of
                  Panics v \<Rightarrow> (Fault v, tr)
                | Returns None \<Rightarrow> (Drop, tr)
                | Returns (Some err) \<Rightarrow>
                    (Drop, tr @ [klog_Errorf ''Failed to update message: %v'' [AErr err]])))"

text \<open>
  The second loop: it ends with the entries to keep watching, or it is cut short by the
  panic of an iteration, after which no later iteration runs. The calls made are the
  second component, an iteration's calls before those of the iterations after it.
\<close>

datatype loop_end = Done "message list" | Panicking string

fun reconcile :: "NewBugReporter \<Rightarrow> pass_env \<Rightarrow> message list \<Rightarrow> loop_end \<times> effect list" where
  "reconcile c env [] = (Done [], [])"
| "reconcile c env (m # ms) =
     (case reconcile_entry c env m of
        (Fault v, tr) \<Rightarrow> (Panicking v, tr)
      | (Keep, tr) \<Rightarrow>
          (case reconcile c env ms of
             (Done messagesToWatch, tr') \<Rightarrow> (Done (m # messagesToWatch), tr @ tr')
           | (Panicking v, tr') \<Rightarrow> (Panicking v, tr @ tr'))
      | (Drop, tr) \<Rightarrow>
          (case reconcile c env ms of
             (Done messagesToWatch, tr') \<Rightarrow> (Done messagesToWatch, tr @ tr')
           | (Panicking v, tr') \<Rightarrow> (Panicking v, tr @ tr')))"

text \<open>
  One pass of \<^verbatim>\<open>updateMessages\<close>, the body of its endless loop. It locks, stores the
  entries that are not too old, and runs the second loop. When that loop ends, the pass
  stores the entries to watch, sleeps an hour, and then the deferred unlock runs, as the
  function literal returns. When that loop panics, the assignment of the entries to watch
  and the sleep are skipped: the deferred unlock runs, the deferred recovery logs the
  value of the panic, and the registry stays as the first loop left it.
\<close>

definition updateMessages_pass ::
  "NewBugReporter \<Rightarrow> pass_env \<Rightarrow> state \<Rightarrow> state \<times> effect list" where
  "updateMessages_pass c env st =
     (let st1 = st\<lparr>messagesToWatchAndUpdate := notTooOldMessages env (messagesToWatchAndUpdate st)\<rparr>
      in case reconcile c env (messagesToWatchAndUpdate st1) of
           (Done messagesToWatch, tr) \<Rightarrow>
             (st1\<lparr>messagesToWatchAndUpdate := messagesToWatch\<rparr>,
              [Lock] @ tr @ [Sleep Hour] @ [Unlock])
         | (Panicking v, tr) \<Rightarrow>
             (st1, [Lock] @ tr @ [Unlock] @ [klog_Error [AStr v]]))"

text \<open>The loop's first passes, one for each environment of the list.\<close>

fun updateMessages :: "NewBugReporter \<Rightarrow> pass_env list \<Rightarrow> state \<Rightarrow> state \<times> effect list" where
  "updateMessages c [] st = (st, [])"
| "updateMessages c (env # envs) st =
     (case updateMessages_pass c env st of (st', tr) \<Rightarrow>
        (case updateMessages c envs st' of (st'', tr') \<Rightarrow> (st'', tr @ tr')))"

text \<open>Whether every sleep of a trace happens while the lock is free; \<open>held\<close> says whether
  the lock is held where the trace starts.\<close>

fun sleeps_unlocked :: "bool \<Rightarrow> effect list \<Rightarrow> bool" where
  "sleeps_unlocked held [] = True"
| "sleeps_unlocked held (Lock # tr) = sleeps_unlocked True tr"
| "sleeps_unlocked held (Unlock # tr) = sleeps_unlocked False tr"
| "sleeps_unlocked held (Sleep d # tr) = (\<not> held \<and> sleeps_unlocked held tr)"
| "sleeps_unlocked held (e # tr) = sleeps_unlocked held tr"

text \<open>The two reasons for which a pass may drop an entry: it was created more than 30 days
  before the clock reading of its age check, or the fetch of its item succeeded with a
  status other than \<^verbatim>\<open>NEW\<close>.\<close>

definition too_old :: "pass_env \<Rightarrow> message \<Rightarrow> bool" where
  "too_old env m \<longleftrightarrow> createdAt m < Now_for env m - 30 * 24 * Hour"

definition left_NEW :: "pass_env \<Rightarrow> message \<Rightarrow> bool" where
  "left_NEW env m \<longleftrightarrow>
     (case GetCachedBug_for env m of
        Returns (Fetched b) \<Rightarrow> Status b \<noteq> ''NEW''
      | Returns (FetchFailed b err) \<Rightarrow> False
      | Returns FetchedNil \<Rightarrow> False
      | Panics v \<Rightarrow> False)"

text \<open>Whether the iteration for an entry panics, and whether a pass over a registry does:
  the second loop reaches every entry that is not too old until one panics.\<close>

definition entry_panics :: "pass_env \<Rightarrow> message \<Rightarrow> bool" where
  "entry_panics env m \<longleftrightarrow>
     (case GetCachedBug_for env m of
        Panics v \<Rightarrow> True
      | Returns FetchedNil \<Rightarrow> True
      | Returns (FetchFailed b err) \<Rightarrow> False
      | Returns (Fetched b) \<Rightarrow>
          Status b \<noteq> ''NEW'' \<and>
          (case UpdateMessage_for env m of Panics v \<Rightarrow> True | Returns e \<Rightarrow> False))"

definition pass_panics :: "pass_env \<Rightarrow> message list \<Rightarrow> bool" where
  "pass_panics env ms \<longleftrightarrow> list_ex (entry_panics env) (filter (\<lambda>m. \<not> too_old env m) ms)"

section \<open>The claim handler\<close>

record Container =
  ChannelID :: string
  MessageTs :: string

text \<open>What the collaborators answer to the calls of one claim, in the order of the calls.\<close>

record claim_env =
  GetUserProfile_result :: "error + string"
  GetCachedBug_first :: fetch_result
  UpdateBug_error :: "error option"
  GetCachedBug_second :: fetch_result
  UpdateMessage_error :: "error option"

text \<open>How the detached task ends: it returns, or it panics on a nil pointer.\<close>

datatype outcome = Returned | Panicked

definition ephemeral :: "string \<Rightarrow> string \<Rightarrow> effect" where
  "ephemeral user text = PostMessageChannel [MsgOptionPostEphemeral user, MsgOptionText text]"

definition bug_url :: "go_int \<Rightarrow> string" where
  "bug_url n = ''https://bugzilla.redhat.com/show_bug.cgi?id='' @ Itoa n"

text \<open>
  \<^verbatim>\<open>takeClicked\<close>, with the steps of its detached task after the decoding of the payload:
  the chat container of the clicked message, the user's id and the action's value are the
  inputs. A fetch that returns neither a bug nor an error makes the task panic where the
  bug is first read: at \<^verbatim>\<open>b.Status\<close> after the first fetch, at \<^verbatim>\<open>*b\<close> after the second.
\<close>

definition takeClicked ::
  "NewBugReporter \<Rightarrow> claim_env \<Rightarrow> Container \<Rightarrow> string \<Rightarrow> string \<Rightarrow> outcome \<times> effect list" where
  "takeClicked c env msg user_ID action_Value =
     (case Unmarshal c action_Value of
        Inl err \<Rightarrow>
          (Returned,
           [klog_Warningf ''cannot unmarshal value %q: %v'' [AStr action_Value, AErr err]])
      | Inr val \<Rightarrow>
     (case GetUserProfile_result env of
        Inl err \<Rightarrow>
          (Returned,
           [GetUserProfile user_ID,
            ephemeral user_ID (''Failed to get user profile of '' @ user_ID @ '': '' @ Error err),
            klog_Errorf ''Failed to get user profile of %v: %v'' [AStr user_ID, AErr err]])
      | Inr email \<Rightarrow>
     (let bzEmail = SlackEmailToBugzilla c email;
          tr1 = [GetUserProfile user_ID, GetCachedBug (TakeValue.ID val) []]
      in case GetCachedBug_first env of
        FetchFailed b err \<Rightarrow>
          (Returned,
           tr1 @
           [ephemeral user_ID
              (''Failed to get '' @ bug_url (TakeValue.ID val) @ '': '' @ Error err),
            klog_Errorf ''Failed to get bug #%v: %v'' [AInt (TakeValue.ID val), AErr err]])
      | FetchedNil \<Rightarrow> (Panicked, tr1)
      | Fetched b \<Rightarrow>
          if Status b \<noteq> ''NEW'' then
            (Returned,
             tr1 @
             [ephemeral user_ID
                (''Bug '' @ bug_url (TakeValue.ID val) @ '' has been moved already to '' @ Status b),
              klog_Infof ''Bug #%v not NEW anymore, but %q''
                [AInt (TakeValue.ID val), AStr (Status b)]])
          else if AssignedTo b \<noteq> [] \<and> AssignedTo b \<noteq> OldAssignee val then
            (Returned,
             tr1 @
             [ephemeral user_ID
                (''Bug '' @ bug_url (TakeValue.ID val) @ '' has already been assigned to ''
                   @ OldAssignee val),
              klog_Infof ''Bug #%v changed assigned, expected %q, got %q''
                [AInt (TakeValue.ID val), AStr (OldAssignee val), AStr (AssignedTo b)]])
          else
     (let tr2 = tr1 @
            [UpdateBug (TakeValue.ID val)
               \<lparr>BugUpdate.Status = ''ASSIGNED'', BugUpdate.AssignedTo = bzEmail\<rparr>]
      in case UpdateBug_error env of
        Some err \<Rightarrow>
          (Returned,
           tr2 @
           [ephemeral user_ID
              (''Failed to assign '' @ bug_url (TakeValue.ID val) @ '' to '' @ bzEmail @ '': ''
                 @ Error err),
            klog_Errorf ''Failed to assign bug #%v to %s: %v''
              [AInt (TakeValue.ID val), AStr bzEmail, AErr err]])
      | None \<Rightarrow>
     (let tr3 = tr2 @ [GetCachedBug (TakeValue.ID val) []]
      in case GetCachedBug_second env of
        FetchFailed b' err \<Rightarrow>
          (case b' of
             None \<Rightarrow> (Panicked, tr3)
           | Some b \<Rightarrow>
               (Returned,
                tr3 @
                [MessageChannel (bzEmail @ '' took: '' @ FormatBugMessage c b),
                 klog_Errorf ''Failed to get updated bug #%d: %v''
                   [AInt (TakeValue.ID val), AErr err]]))
      | FetchedNil \<Rightarrow> (Panicked, tr3)
      | Fetched b \<Rightarrow>
          (let text = FormatBugMessage c b @ assigned_to @ bzEmail;
               tr4 = tr3 @
                 [klog_Infof ''Updating message to: %v'' [AStr text],
                  UpdateMessage (ChannelID msg) (MessageTs msg)
                    [MsgOptionBlocks [SectionBlock text]]]
           in case UpdateMessage_error env of
                None \<Rightarrow> (Returned, tr4)
              | Some err \<Rightarrow>
                  (Returned,
                   tr4 @
                   [MessageChannel (bzEmail @ '' took: '' @ FormatBugMessage c b),
                    klog_Errorf ''Failed to update message: %v'' [AErr err]])))))))"

text \<open>The tracker updates, the ephemeral texts, the channel messages and the edits of a
  trace.\<close>

fun update_calls :: "effect list \<Rightarrow> (go_int \<times> BugUpdate) list" where
  "update_calls [] = []"
| "update_calls (UpdateBug n u # tr) = (n, u) # update_calls tr"
| "update_calls (e # tr) = update_calls tr"

fun ephemeral_texts :: "effect list \<Rightarrow> string list" where
  "ephemeral_texts [] = []"
| "ephemeral_texts (PostMessageChannel [MsgOptionPostEphemeral u, MsgOptionText t] # tr) =
     t # ephemeral_texts tr"
| "ephemeral_texts (e # tr) = ephemeral_texts tr"

fun channel_messages :: "effect list \<Rightarrow> string list" where
  "channel_messages [] = []"
| "channel_messages (MessageChannel t # tr) = t # channel_messages tr"
| "channel_messages (e # tr) = channel_messages tr"

fun edits :: "effect list \<Rightarrow> effect list" where
  "edits [] = []"
| "edits (UpdateMessage ch t opts # tr) = UpdateMessage ch t opts # edits tr"
| "edits (e # tr) = edits tr"

section \<open>The tracker's search\<close>

text \<open>
  Modelled from the spec: the tracker behind \<^verbatim>\<open>client.Search\<close> is not part of the source. By
  the tracker query contract it returns, in arrival order, the items of the query's
  classification, product, status and component lists that satisfy the query's lower
  bound: an id above an exclusive minimum (\<^verbatim>\<open>bug_id greaterthan n\<close>), or a creation time
  not before a bound relative to the time of the search (\<^verbatim>\<open>creation_ts greaterthaneq -168h\<close>).
  An item here is the bug the search returns for it, with the fields the query filters on.
\<close>

record tracker_item =
  bug :: Bug
  creation_ts :: int
  classification :: string
  product :: string
  component :: string

text \<open>A relative time \<^verbatim>\<open>-Nh\<close>: \<open>N\<close> hours back.\<close>

definition relative_time :: "string \<Rightarrow> int option" where
  "relative_time v =
     (case v of
        [] \<Rightarrow> None
      | c # cs \<Rightarrow>
          if c = CHR ''-'' \<and> cs \<noteq> [] \<and> last cs = CHR ''h'' \<and> butlast cs \<noteq> []
          then map_option (\<lambda>n. - (int n * Hour)) (parse_digits 0 (butlast cs))
          else None)"

definition advanced_matches :: "int \<Rightarrow> tracker_item \<Rightarrow> AdvancedQuery \<Rightarrow> bool" where
  "advanced_matches now it aq =
     (if Field aq = ''bug_id'' \<and> Op aq = ''greaterthan''
      then (case Atoi (Value aq) of Some n \<Rightarrow> n <s ID (bug it) | None \<Rightarrow> False)
      else if Field aq = ''creation_ts'' \<and> Op aq = ''greaterthaneq''
      then (case relative_time (Value aq) of Some d \<Rightarrow> now + d \<le> creation_ts it | None \<Rightarrow> False)
      else False)"

definition query_matches :: "int \<Rightarrow> Query \<Rightarrow> tracker_item \<Rightarrow> bool" where
  "query_matches now q it \<longleftrightarrow>
     classification it \<in> set (Classification q) \<and>
     product it \<in> set (Product q) \<and>
     Status (bug it) \<in> set (Query.Status q) \<and>
     component it \<in> set (Component q) \<and>
     list_all (advanced_matches now it) (Advanced q)"

definition tracker_Search :: "int \<Rightarrow> tracker_item list \<Rightarrow> Query \<Rightarrow> error + Bug list" where
  "tracker_Search now items q = Inr (map bug (filter (query_matches now q) items))"

text \<open>The fixed scope of the scanner's query: classification, product, status, and the
  reporter's components.\<close>

definition in_scope :: "string list \<Rightarrow> tracker_item \<Rightarrow> bool" where
  "in_scope comps it \<longleftrightarrow>
     classification it = ''Red Hat'' \<and>
     product it = ''OpenShift Container Platform'' \<and>
     Status (bug it) = ''NEW'' \<and>
     component it \<in> set comps"

section \<open>The closed-bug count report\<close>

record Closed =
  Name :: string
  SharerID :: string

text \<open>The reporter with the list it reads and \<^verbatim>\<open>bugutil.BugCountPlural\<close>, a parameter.\<close>

record BlockersReporter =
  config_Lists_Closed :: Closed
  BugCountPlural :: "go_int \<Rightarrow> bool \<Rightarrow> string"

text \<open>
  What the collaborators answer during one run: the tracker's list, the chat's answer to
  the post, and the order in which Go ranges over the map of resolutions, which the
  language leaves open.
\<close>

record closed_env =
  BugList_result :: "error + Bug list"
  range_order :: "(string \<times> Bug list) list \<Rightarrow> (string \<times> Bug list) list"
  MessageChannel_error :: "error option"

text \<open>\<^verbatim>\<open>resolutionMap[bug.Resolution] = append(resolutionMap[bug.Resolution], bug)\<close> on a map
  kept as a list of keys with their bugs.\<close>

fun append_to :: "(string \<times> Bug list) list \<Rightarrow> string \<Rightarrow> Bug \<Rightarrow> (string \<times> Bug list) list" where
  "append_to [] k b = [(k, [b])]"
| "append_to ((k', bs) # m) k b =
     (if k' = k then (k', bs @ [b]) # m else (k', bs) # append_to m k b)"

fun resolutionMap :: "(string \<times> Bug list) list \<Rightarrow> Bug list \<Rightarrow> (string \<times> Bug list) list" where
  "resolutionMap m [] = m"
| "resolutionMap m (b # bs) = resolutionMap (append_to m (Resolution b) b) bs"

definition closed_line :: "string \<times> Bug list \<Rightarrow> string" where
  "closed_line e =
     (case e of (resolution, bugs) \<Rightarrow>
        (let ids = map (\<lambda>b. ''<https://bugzilla.redhat.com/show_bug.cgi?id='' @ Itoa (ID b)
                              @ ''|#'' @ Itoa (ID b) @ ''>'') bugs;
             p = (if length bugs = 1 then ''bug'' else ''bugs'')
         in ''> '' @ Itoa (of_nat (length bugs)) @ '' '' @ p @ '' closed as _'' @ resolution
              @ ''_ ('' @ Join ids '','' @ '')''))"

text \<open>\<^verbatim>\<open>Report\<close> of the package \<^verbatim>\<open>closed\<close>: the report, the error and the calls made.\<close>

definition closed_Report :: "BlockersReporter \<Rightarrow> closed_env \<Rightarrow> (string \<times> error option) \<times> effect list" where
  "closed_Report c env =
     (let call = BugList (Name (config_Lists_Closed c)) (SharerID (config_Lists_Closed c))
      in case BugList_result env of
           Inl err \<Rightarrow> (([], Some err), [call, Recorder_Warningf ''BuglistFailed'' (Error err) []])
         | Inr closedBugs \<Rightarrow>
             (let message = map closed_line (range_order env (resolutionMap [] closedBugs))
              in if length closedBugs = 0 then (([], None), [call])
                 else ((''*'' @ BugCountPlural c (of_nat (length closedBugs)) True
                          @ '' Closed in the last 24h*:'' @ [CHR 0x0A]
                          @ Join message [CHR 0x0A] @ [CHR 0x0A], None),
                       [call])))"

text \<open>\<^verbatim>\<open>sync\<close> of the package \<^verbatim>\<open>closed\<close>: the error returned and the calls made.\<close>

definition closed_sync :: "BlockersReporter \<Rightarrow> closed_env \<Rightarrow> error option \<times> effect list" where
  "closed_sync c env =
     (case closed_Report c env of
        ((report, err), tr) \<Rightarrow>
          (case err of
             Some e \<Rightarrow> (Some e, tr)
           | None \<Rightarrow>
               if length report = 0 then (None, tr)
               else (case MessageChannel_error env of
                       None \<Rightarrow> (None, tr @ [MessageChannel report])
                     | Some e \<Rightarrow>
                         (Some e,
                          tr @ [MessageChannel report,
                                Recorder_Warningf ''DeliveryFailed''
                                  ''Failed to deliver closed bug counts: %v'' [AErr e]]))))"

section \<open>Example inputs\<close>

definition example_reporter :: NewBugReporter where
  "example_reporter =
     \<lparr>components = [''etcd''],
      FormatBugMessage = (\<lambda>b. ''#'' @ Itoa (ID b)),
      Marshal = (\<lambda>v. Itoa (TakeValue.ID v) @ '':'' @ OldAssignee v),
      Unmarshal = (\<lambda>s. if s = ''103:alice'' then Inr \<lparr>TakeValue.ID = 103, OldAssignee = ''alice''\<rparr>
                        else if s = ''103:'' then Inr \<lparr>TakeValue.ID = 103, OldAssignee = []\<rparr>
                        else Inl (Err ''invalid character'')),
      SlackEmailToBugzilla = (\<lambda>e. e)\<rparr>"

definition example_bug :: "go_int \<Rightarrow> string \<Rightarrow> string \<Rightarrow> Bug" where
  "example_bug n st a = \<lparr>ID = n, Status = st, AssignedTo = a, Resolution = []\<rparr>"

definition example_state :: "string \<Rightarrow> state" where
  "example_state s = \<lparr>persistent = (\<lambda>k. if k = ''new-bug-reporter.state-etcd'' then s else []),
                      messagesToWatchAndUpdate = []\<rparr>"

text \<open>A cycle whose scan returns the bugs \<open>bs\<close>, whose posts all get the answer \<open>post\<close>, and
  whose cursor read and write fail as \<open>rd\<close> and \<open>wr\<close> say.\<close>

definition example_cycle ::
  "error option \<Rightarrow> Bug list \<Rightarrow> (error + string \<times> string) \<Rightarrow> error option \<Rightarrow> sync_env" where
  "example_cycle rd bs post wr =
     \<lparr>GetPersistentValue_error = rd,
      Search_result = (\<lambda>q. Inr bs),
      PostMessageChannel_result = (\<lambda>i. post),
      time_Now = (\<lambda>i. 1000),
      SetPersistentValue_error = wr\<rparr>"

definition example_message :: "int \<Rightarrow> go_int \<Rightarrow> message" where
  "example_message t n = \<lparr>createdAt = t, message.ID = n, channelID = ''C1'', ts = Itoa n\<rparr>"

text \<open>A pass at the time \<open>now\<close> in which no call panics, the tracker gives the answer
  \<open>fetch\<close> for an id, and every edit gets the answer \<open>edit\<close>.\<close>

definition example_pass :: "int \<Rightarrow> (go_int \<Rightarrow> fetch_result) \<Rightarrow> error option \<Rightarrow> pass_env" where
  "example_pass now fetch edit =
     \<lparr>Now_for = (\<lambda>m. now),
      GetCachedBug_for = (\<lambda>m. Returns (fetch (message.ID m))),
      UpdateMessage_for = (\<lambda>m. Returns edit)\<rparr>"

definition example_claim :: "fetch_result \<Rightarrow> fetch_result \<Rightarrow> claim_env" where
  "example_claim first second =
     \<lparr>GetUserProfile_result = Inr ''carol@example.com'',
      GetCachedBug_first = first,
      UpdateBug_error = None,
      GetCachedBug_second = second,
      UpdateMessage_error = None\<rparr>"

definition example_container :: Container where
  "example_container = \<lparr>ChannelID = ''C1'', MessageTs = ''1700000000.000100''\<rparr>"

definition example_item :: "go_int \<Rightarrow> int \<Rightarrow> tracker_item" where
  "example_item n t =
     \<lparr>bug = example_bug n ''NEW'' [], creation_ts = t, classification = ''Red Hat'',
      product = ''OpenShift Container Platform'', component = ''etcd''\<rparr>"

definition example_closed_reporter :: BlockersReporter where
  "example_closed_reporter =
     \<lparr>config_Lists_Closed = \<lparr>Name = ''closed'', SharerID = ''1''\<rparr>,
      BugCountPlural = (\<lambda>n all. Itoa n @ '' bugs'')\<rparr>"

definition example_closed_env :: "Bug list \<Rightarrow> closed_env" where
  "example_closed_env bs =
     \<lparr>BugList_result = Inr bs, range_order = (\<lambda>m. m), MessageChannel_error = None\<rparr>"

text \<open>A tracker in which bug 101 is closed and assigned, bug 103 is new and unassigned,
  and every other fetch fails.\<close>

definition example_tracker :: "go_int \<Rightarrow> fetch_result" where
  "example_tracker n =
     (if n = 101 then Fetched (example_bug 101 ''CLOSED'' ''bob@example.com'')
      else if n = 103 then Fetched (example_bug 103 ''NEW'' [])
      else FetchFailed None (Err ''timeout''))"

text \<open>A registry of four entries created at the times 0, 40, 41 and 42 days, and a pass
  at 45 days whose edits fail.\<close>

definition Day :: int where
  "Day = 24 * Hour"

definition example_registry :: "message list" where
  "example_registry =
     [example_message 0 103, example_message (40 * Day) 101,
      example_message (41 * Day) 103, example_message (42 * Day) 105]"

definition example_pass_env :: pass_env where
  "example_pass_env = example_pass (45 * Day) example_tracker (Some (Err ''message_not_found''))"

text \<open>The same tracker, except that the fetch of bug 107 returns neither a bug nor an
  error; a registry of three entries that ends with bug 107; and a pass at 45 days
  against this tracker.\<close>

definition example_nil_tracker :: "go_int \<Rightarrow> fetch_result" where
  "example_nil_tracker n = (if n = 107 then FetchedNil else example_tracker n)"

definition example_cut_registry :: "message list" where
  "example_cut_registry =
     [example_message (40 * Day) 101, example_message (41 * Day) 103,
      example_message (42 * Day) 107]"

definition example_cut_pass_env :: pass_env where
  "example_cut_pass_env = example_pass (45 * Day) example_nil_tracker None"

section \<open>Properties of the library functions\<close>

subsection \<open>Atoi reads back what Itoa writes\<close>

lemma of_char_digit_char:
  assumes "d < 10"
  shows "(of_char (digit_char d) :: nat) = 48 + d"
proof -
  from assms have "d \<in> {0, 1, 2, 3, 4, 5, 6, 7, 8, 9}" by auto
  then show ?thesis by (auto simp: digit_char_def)
qed

lemma digit_val_digit_char: "d < 10 \<Longrightarrow> digit_val (digit_char d) = Some d"
  by (simp add: digit_val_def of_char_digit_char)

lemma parse_digits_append:
  "parse_digits n (xs @ ys) = (case parse_digits n xs of None \<Rightarrow> None | Some m \<Rightarrow> parse_digits m ys)"
  by (induction xs arbitrary: n) (auto split: option.splits)

lemma parse_digits_digits: "parse_digits 0 (digits n) = Some n"
proof (induction n rule: digits.induct)
  case (1 n)
  show ?case
  proof (cases "n < 10")
    case True
    then show ?thesis by (subst digits.simps) (simp add: digit_val_digit_char)
  next
    case False
    with 1 have "parse_digits 0 (digits (n div 10)) = Some (n div 10)" by simp
    with False show ?thesis
      by (subst digits.simps) (simp add: parse_digits_append digit_val_digit_char)
  qed
qed

lemma digits_nonempty: "digits n \<noteq> []"
  by (subst digits.simps) simp

lemma hd_digits: "\<exists>d<10. hd (digits n) = digit_char d"
proof (induction n rule: digits.induct)
  case (1 n)
  show ?case
  proof (cases "n < 10")
    case True
    then show ?thesis by (subst digits.simps) auto
  next
    case False
    with 1 have "\<exists>d<10. hd (digits (n div 10)) = digit_char d" by simp
    with False show ?thesis
      by (subst digits.simps) (simp add: digits_nonempty)
  qed
qed

lemma digit_char_not_sign:
  assumes "d < 10" shows "digit_char d \<noteq> CHR ''-''" and "digit_char d \<noteq> CHR ''+''"
proof -
  have "(of_char (digit_char d) :: nat) \<noteq> of_char CHR ''-''"
    using assms by (simp add: of_char_digit_char)
  then show "digit_char d \<noteq> CHR ''-''" by auto
  have "(of_char (digit_char d) :: nat) \<noteq> of_char CHR ''+''"
    using assms by (simp add: of_char_digit_char)
  then show "digit_char d \<noteq> CHR ''+''" by auto
qed

lemma digits_cons: "\<exists>c cs. digits n = c # cs \<and> c \<noteq> CHR ''-'' \<and> c \<noteq> CHR ''+''"
proof -
  obtain c cs where e: "digits n = c # cs"
    using digits_nonempty [of n] by (cases "digits n") auto
  from hd_digits [of n] e obtain d where "d < 10" "c = digit_char d" by auto
  with e digit_char_not_sign [of d] show ?thesis by auto
qed

lemma Itoa_nonempty: "Itoa n \<noteq> []"
  by (simp add: Itoa_def digits_nonempty)

lemma Atoi_Itoa: "Atoi (Itoa n) = Some n"
proof (cases "sint n < 0")
  case True
  let ?m = "nat (- sint n)"
  have r: "?m \<le> 2 ^ 63" using sint_ge [of n] by simp
  have "Atoi (Itoa n) = Some (word_of_int (- int ?m))"
    using True r digits_nonempty [of ?m]
    by (simp add: Atoi_def Itoa_def parse_digits_digits)
  also have "- int ?m = sint n" using True by simp
  finally show ?thesis by simp
next
  case False
  let ?m = "nat (sint n)"
  have r: "?m < 2 ^ 63" using sint_lt [of n] False by simp
  obtain c cs where e: "digits ?m = c # cs" "c \<noteq> CHR ''-''" "c \<noteq> CHR ''+''"
    using digits_cons [of ?m] by auto
  have "parse_digits 0 (c # cs) = Some ?m"
    using parse_digits_digits [of ?m] e by simp
  then have "Atoi (Itoa n) = Some (word_of_int (int ?m))"
    using False r e by (simp add: Atoi_def Itoa_def del: parse_digits.simps)
  also have "int ?m = sint n" using False by simp
  finally show ?thesis by simp
qed

subsection \<open>The signed order of Go integers\<close>

lemma sle_refl: "(n::go_int) \<le>s n"
  by (simp add: word_sle_eq)

lemma sle_trans: "(a::go_int) \<le>s b \<Longrightarrow> b \<le>s d \<Longrightarrow> a \<le>s d"
  by (simp add: word_sle_eq)

lemma sless_sle: "(a::go_int) <s b \<Longrightarrow> a \<le>s b"
  by (simp add: word_sle_eq word_sless_alt)

lemma not_sless_sle: "\<not> (a::go_int) <s b \<Longrightarrow> b \<le>s a"
  by (simp add: word_sle_eq word_sless_alt)

lemma sle_antisym:
  assumes "(a::go_int) \<le>s b" and "b \<le>s a"
  shows "a = b"
proof -
  have "sint a = sint b" using assms by (simp add: word_sle_eq)
  then have "(word_of_int (sint a) :: go_int) = word_of_int (sint b)" by simp
  then show ?thesis by simp
qed

section \<open>Properties of the sync cycle\<close>

subsection \<open>The largest id\<close>

lemma max_id_ge: "n \<le>s max_id n bs"
proof (induction bs arbitrary: n)
  case Nil show ?case by (simp add: sle_refl)
next
  case (Cons b bs)
  show ?case using Cons [of "if n <s ID b then ID b else n"]
    by (auto intro: sle_trans sless_sle split: if_splits)
qed

lemma max_id_bound: "n \<le>s M \<Longrightarrow> \<forall>b\<in>set bs. ID b \<le>s M \<Longrightarrow> max_id n bs \<le>s M"
  by (induction bs arbitrary: n) auto

lemma max_id_ge_elem: "b \<in> set bs \<Longrightarrow> ID b \<le>s max_id n bs"
proof (induction bs arbitrary: n)
  case Nil then show ?case by simp
next
  case (Cons a bs)
  show ?case
  proof (cases "b = a")
    case True
    have "ID a \<le>s (if n <s ID a then ID a else n)"
      by (auto intro: sle_refl not_sless_sle)
    then show ?thesis using True max_id_ge [of "if n <s ID a then ID a else n" bs]
      by (auto intro: sle_trans simp del: )
  next
    case False
    with Cons show ?thesis by auto
  qed
qed

lemma max_id_maximum:
  assumes "M \<in> ID ` set bs" and "\<forall>b\<in>set bs. ID b \<le>s M"
  shows "max_id n bs = (if n <s M then M else n)"
proof (cases "n <s M")
  case True
  then have "max_id n bs \<le>s M" using assms(2) by (intro max_id_bound) (auto intro: sless_sle)
  moreover have "M \<le>s max_id n bs" using assms(1) max_id_ge_elem by auto
  ultimately show ?thesis using True by (auto intro: sle_antisym)
next
  case False
  then have le: "M \<le>s n" by (rule not_sless_sle)
  have "max_id n bs \<le>s n" using assms(2) le by (intro max_id_bound) (auto intro: sle_refl sle_trans)
  then show ?thesis using False max_id_ge [of n bs] by (auto intro: sle_antisym)
qed

subsection \<open>The loop over the new bugs\<close>

lemma post_loop_lastID: "lastID (post_loop c env i bs ls) = max_id (lastID ls) bs"
  by (induction bs arbitrary: i ls) (simp_all add: Let_def)

lemma post_loop_errs: "errs (post_loop c env i bs ls) = errs ls"
  by (induction bs arbitrary: i ls) (simp_all add: Let_def)

lemma post_loop_Nil: "post_loop c env i [] ls = ls"
  by simp

lemma post_loop_calls: "calls (post_loop c env i bs ls) = calls ls @ map (post_call c) bs"
  by (induction bs arbitrary: i ls) (simp_all add: Let_def post_call_def)


subsection \<open>The cycle, case by case\<close>

lemma sync_read_failed:
  "GetPersistentValue_error env = Some e \<Longrightarrow> sync c env st = (Some e, st, [GetPersistentValue (stateKey c)])"
  by (simp add: sync_def)

lemma sync_read_ok:
  assumes "GetPersistentValue_error env = None"
  shows "sync c env st =
     (case Search_result env (scan_query (components c) (cursor c st)) of
        Inl err \<Rightarrow>
          persist c env (cursor c st)
            (Some err, st,
             GetPersistentValue (stateKey c) # parse_warning c st
               @ [Search (scan_query (components c) (cursor c st)),
                  Recorder_Warningf ''BuglistFailed'' (Error err) []])
      | Inr newBugs \<Rightarrow>
          persist c env (max_id (cursor c st) newBugs)
            (None,
             st\<lparr>messagesToWatchAndUpdate :=
                  registry (post_loop c env 0 newBugs
                              \<lparr>lastID = cursor c st, registry = messagesToWatchAndUpdate st,
                               errs = [], calls = []\<rparr>)\<rparr>,
             GetPersistentValue (stateKey c) # parse_warning c st
               @ [Search (scan_query (components c) (cursor c st)), Lock]
               @ map (post_call c) newBugs @ [Unlock]))"
  using assms
  by (simp add: sync_def cursor_def parse_warning_def getNewBugs_def Let_def post_loop_lastID
        post_loop_errs post_loop_calls NewAggregate_def
      split: sum.splits option.splits)

subsection \<open>The cursor after a cycle\<close>

lemma cursor_written:
  "persistent st (stateKey c) = Itoa n \<Longrightarrow> cursor c st = n"
  by (simp add: cursor_def Itoa_nonempty Atoi_Itoa)

lemma cursor_cong:
  "persistent st' (stateKey c) = persistent st (stateKey c) \<Longrightarrow> cursor c st' = cursor c st"
  by (simp add: cursor_def)

lemma persist_result:
  "persist c env n (err, st, tr) =
     ((case SetPersistentValue_error env of
         None \<Rightarrow> err
       | Some persistErr \<Rightarrow> (if err = None then Some persistErr else err)),
      (case SetPersistentValue_error env of
         None \<Rightarrow> st\<lparr>persistent := (persistent st)(stateKey c := Itoa n)\<rparr>
       | Some persistErr \<Rightarrow> st),
      tr @ [SetPersistentValue (stateKey c) (Itoa n)])"
  by (simp add: persist_def Let_def split: option.splits)

lemma cycle_lastID_ge: "cursor c st \<le>s cycle_lastID c env st"
  by (simp add: cycle_lastID_def max_id_ge sle_refl split: sum.splits)

lemma sync_persistent:
  assumes "GetPersistentValue_error env = None"
  shows "persistent (fst (snd (sync c env st))) =
     (case SetPersistentValue_error env of
        None \<Rightarrow> (persistent st)(stateKey c := Itoa (cycle_lastID c env st))
      | Some persistErr \<Rightarrow> persistent st)"
  by (simp add: sync_read_ok [OF assms] persist_result cycle_lastID_def
      split: sum.splits option.splits)

lemma sync_cursor:
  assumes "GetPersistentValue_error env = None"
  shows "cursor c (fst (snd (sync c env st))) =
     (case SetPersistentValue_error env of
        None \<Rightarrow> cycle_lastID c env st
      | Some persistErr \<Rightarrow> cursor c st)"
proof (cases "SetPersistentValue_error env")
  case None
  then have "persistent (fst (snd (sync c env st))) (stateKey c) = Itoa (cycle_lastID c env st)"
    by (simp add: sync_persistent [OF assms])
  then have "cursor c (fst (snd (sync c env st))) = cycle_lastID c env st"
    by (rule cursor_written)
  then show ?thesis using None by simp
next
  case (Some e)
  then have "persistent (fst (snd (sync c env st))) (stateKey c) = persistent st (stateKey c)"
    by (simp add: sync_persistent [OF assms])
  then have "cursor c (fst (snd (sync c env st))) = cursor c st"
    by (rule cursor_cong)
  then show ?thesis using Some by simp
qed

lemma sync_cursor_step: "cursor c st \<le>s cursor c (fst (snd (sync c env st)))"
proof (cases "GetPersistentValue_error env")
  case (Some e)
  have "fst (snd (sync c env st)) = st"
    by (simp add: sync_read_failed [OF Some])
  then show ?thesis by (simp add: sle_refl)
next
  case None
  show ?thesis
  proof (cases "SetPersistentValue_error env")
    case wr: None
    have "cursor c (fst (snd (sync c env st))) = cycle_lastID c env st"
      by (simp add: sync_cursor [OF None] wr)
    then show ?thesis by (simp add: cycle_lastID_ge)
  next
    case wr: (Some e)
    have "cursor c (fst (snd (sync c env st))) = cursor c st"
      by (simp add: sync_cursor [OF None] wr)
    then show ?thesis by (simp add: sle_refl)
  qed
qed

lemma sync_cycles_ge: "s \<in> set (sync_cycles c envs st) \<Longrightarrow> cursor c st \<le>s cursor c s"
proof (induction envs arbitrary: st)
  case Nil
  then show ?case by (simp add: sle_refl)
next
  case (Cons env envs)
  from Cons.prems consider "s = st" | "s \<in> set (sync_cycles c envs (fst (snd (sync c env st))))"
    by auto
  then show ?case
  proof cases
    case 1
    then show ?thesis by (simp add: sle_refl)
  next
    case 2
    then have "cursor c (fst (snd (sync c env st))) \<le>s cursor c s" by (rule Cons.IH)
    with sync_cursor_step [of c st env] show ?thesis by (rule sle_trans)
  qed
qed

lemma sync_cycles_sorted:
  "sorted_wrt (\<lambda>a b. cursor c a \<le>s cursor c b) (sync_cycles c envs st)"
proof (induction envs arbitrary: st)
  case Nil
  show ?case by simp
next
  case (Cons env envs)
  have "\<forall>s\<in>set (sync_cycles c envs (fst (snd (sync c env st)))). cursor c st \<le>s cursor c s"
    using sync_cycles_ge [of _ c "env # envs" st] by simp
  with Cons.IH show ?case by simp
qed

subsection \<open>The calls of a cycle\<close>

lemma cursor_writes_append: "cursor_writes (xs @ ys) = cursor_writes xs @ cursor_writes ys"
  by (induction xs rule: cursor_writes.induct) simp_all

lemma cursor_writes_posts: "cursor_writes (map (post_call c) bs) = []"
  by (induction bs) (simp_all add: post_call_def)

lemma cursor_writes_parse_warning: "cursor_writes (parse_warning c st) = []"
  by (simp add: parse_warning_def Let_def split: option.splits)

lemma searches_append: "searches (xs @ ys) = searches xs @ searches ys"
  by (induction xs rule: searches.induct) simp_all

lemma searches_posts: "searches (map (post_call c) bs) = []"
  by (induction bs) (simp_all add: post_call_def)

lemma searches_parse_warning: "searches (parse_warning c st) = []"
  by (simp add: parse_warning_def Let_def split: option.splits)

lemma sync_trace:
  assumes "GetPersistentValue_error env = None"
  shows "last (snd (snd (sync c env st))) = SetPersistentValue (stateKey c) (Itoa (cycle_lastID c env st))"
    and "cursor_writes (snd (snd (sync c env st))) = [Itoa (cycle_lastID c env st)]"
    and "searches (snd (snd (sync c env st))) = [scan_query (components c) (cursor c st)]"
proof -
  let ?r = "Search_result env (scan_query (components c) (cursor c st))"
  show "last (snd (snd (sync c env st))) = SetPersistentValue (stateKey c) (Itoa (cycle_lastID c env st))"
    by (cases ?r) (simp_all add: sync_read_ok [OF assms] persist_result cycle_lastID_def)
  show "cursor_writes (snd (snd (sync c env st))) = [Itoa (cycle_lastID c env st)]"
    by (cases ?r) (simp_all add: sync_read_ok [OF assms] persist_result cycle_lastID_def
        cursor_writes_append cursor_writes_parse_warning cursor_writes_posts)
  show "searches (snd (snd (sync c env st))) = [scan_query (components c) (cursor c st)]"
    by (cases ?r) (simp_all add: sync_read_ok [OF assms] persist_result cycle_lastID_def
        searches_append searches_parse_warning searches_posts)
qed

subsection \<open>Values at the example inputs\<close>

lemma Atoi_100: "Atoi ''100'' = Some 100"
  by (simp add: Atoi_def digit_val_def)

lemma Itoa_103: "Itoa 103 = ''103''"
  by (simp add: Itoa_def digits.simps digit_char_def)

lemma stateKey_example: "stateKey example_reporter = ''new-bug-reporter.state-etcd''"
  by (simp add: stateKey_def example_reporter_def)

lemma cursor_example: "cursor example_reporter (example_state ''100'') = 100"
  by (simp add: cursor_def stateKey_example example_state_def Atoi_100)

subsection \<open>Result, calls and registry of a cycle\<close>

lemma Itoa_100: "Itoa 100 = ''100''"
  by (simp add: Itoa_def digits.simps digit_char_def)

lemma sync_searches_read_failed:
  "GetPersistentValue_error env = Some e \<Longrightarrow> searches (snd (snd (sync c env st))) = []"
  by (simp add: sync_read_failed)

lemma sync_error:
  assumes "GetPersistentValue_error env = None"
  shows "fst (sync c env st) =
     (case Search_result env (scan_query (components c) (cursor c st)) of
        Inl err \<Rightarrow> Some err
      | Inr newBugs \<Rightarrow> SetPersistentValue_error env)"
  by (simp add: sync_read_ok [OF assms] persist_result split: sum.splits option.splits)

lemma sync_calls:
  assumes "GetPersistentValue_error env = None"
  shows "snd (snd (sync c env st)) =
     GetPersistentValue (stateKey c) # parse_warning c st
       @ Search (scan_query (components c) (cursor c st))
       # (case Search_result env (scan_query (components c) (cursor c st)) of
            Inl err \<Rightarrow> [Recorder_Warningf ''BuglistFailed'' (Error err) []]
          | Inr newBugs \<Rightarrow> Lock # map (post_call c) newBugs @ [Unlock])
       @ [SetPersistentValue (stateKey c) (Itoa (cycle_lastID c env st))]"
  by (simp add: sync_read_ok [OF assms] persist_result cycle_lastID_def split: sum.splits)

lemma Itoa_101: "Itoa 101 = ''101''"
  by (simp add: Itoa_def digits.simps digit_char_def)

lemma reports_append: "reports (xs @ ys) = reports xs @ reports ys"
  by (induction xs rule: reports.induct) simp_all

lemma parse_warning_example: "parse_warning example_reporter (example_state ''100'') = []"
  by (simp add: parse_warning_def stateKey_example example_state_def Atoi_100)

lemma sync_registry:
  assumes "GetPersistentValue_error env = None"
  shows "messagesToWatchAndUpdate (fst (snd (sync c env st))) =
     (case Search_result env (scan_query (components c) (cursor c st)) of
        Inl err \<Rightarrow> messagesToWatchAndUpdate st
      | Inr newBugs \<Rightarrow>
          registry (post_loop c env 0 newBugs
                      \<lparr>lastID = cursor c st, registry = messagesToWatchAndUpdate st,
                       errs = [], calls = []\<rparr>))"
  by (simp add: sync_read_ok [OF assms] persist_result split: sum.splits option.splits)

lemma sync_empty_scan:
  assumes "Search_result env (scan_query (components c) (cursor c st)) = Inr []"
  shows "messagesToWatchAndUpdate (fst (snd (sync c env st))) = messagesToWatchAndUpdate st"
    and "cursor c (fst (snd (sync c env st))) = cursor c st"
    and "persistent st (stateKey c) = Itoa (cursor c st) \<Longrightarrow> fst (snd (sync c env st)) = st"
proof -
  show "messagesToWatchAndUpdate (fst (snd (sync c env st))) = messagesToWatchAndUpdate st"
  proof (cases "GetPersistentValue_error env")
    case None
    then show ?thesis by (simp add: sync_registry assms)
  next
    case (Some e)
    then show ?thesis by (simp add: sync_read_failed)
  qed
  have l: "cycle_lastID c env st = cursor c st"
    by (simp add: cycle_lastID_def assms)
  show "cursor c (fst (snd (sync c env st))) = cursor c st"
  proof (cases "GetPersistentValue_error env")
    case None
    then show ?thesis by (simp add: sync_cursor l split: option.splits)
  next
    case (Some e)
    then show ?thesis by (simp add: sync_read_failed)
  qed
  assume p: "persistent st (stateKey c) = Itoa (cursor c st)"
  show "fst (snd (sync c env st)) = st"
  proof (cases "GetPersistentValue_error env")
    case None
    have "(persistent st)(stateKey c := Itoa (cursor c st)) = persistent st"
      using p by (simp add: fun_upd_idem)
    then show ?thesis
      by (simp add: sync_read_ok [OF None] assms persist_result split: option.splits)
  next
    case (Some e)
    then show ?thesis by (simp add: sync_read_failed)
  qed
qed

text \<open>The answers of the chat to the posts change neither the result of a cycle, nor its
  calls, nor the store.\<close>

lemma sync_post_results_ignored:
  "fst (sync c (env\<lparr>PostMessageChannel_result := p\<rparr>) st) = fst (sync c env st) \<and>
   snd (snd (sync c (env\<lparr>PostMessageChannel_result := p\<rparr>) st)) = snd (snd (sync c env st)) \<and>
   persistent (fst (snd (sync c (env\<lparr>PostMessageChannel_result := p\<rparr>) st))) =
     persistent (fst (snd (sync c env st)))"
proof (cases "GetPersistentValue_error env")
  case None
  then have n: "GetPersistentValue_error (env\<lparr>PostMessageChannel_result := p\<rparr>) = None" by simp
  have l: "cycle_lastID c (env\<lparr>PostMessageChannel_result := p\<rparr>) st = cycle_lastID c env st"
    by (simp add: cycle_lastID_def)
  show ?thesis
    by (simp add: sync_error [OF n] sync_error [OF None] sync_calls [OF n] sync_calls [OF None]
        sync_persistent [OF n] sync_persistent [OF None] l
        split: sum.splits option.splits)
next
  case (Some e)
  then have n: "GetPersistentValue_error (env\<lparr>PostMessageChannel_result := p\<rparr>) = Some e" by simp
  show ?thesis by (simp add: sync_read_failed [OF n] sync_read_failed [OF Some])
qed

section \<open>The claims about the sync cycle\<close>

text \<open>
  Claim C1, amended. Along every sequence of sync cycles the persisted cursor never
  decreases. After a cycle that read the cursor, whose scan returned items with largest id
  \<open>M\<close> and whose cursor write succeeded, the persisted cursor is the larger of the previous
  cursor and \<open>M\<close> (so it is \<open>M\<close> when the scan returned items above the cursor), whatever
  the chat answered to the posts. Every cycle that read the cursor attempts the cursor
  write exactly once, as its last call, with the cycle's final \<^verbatim>\<open>lastID\<close>.
\<close>

theorem sync_cursor_monotone:
  "sorted_wrt (\<lambda>a b. cursor c a \<le>s cursor c b) (sync_cycles c envs st) \<and>
   (GetPersistentValue_error env = None \<and> SetPersistentValue_error env = None \<and>
    Search_result env (scan_query (components c) (cursor c st)) = Inr newBugs \<and>
    M \<in> ID ` set newBugs \<and> (\<forall>b\<in>set newBugs. ID b \<le>s M) \<longrightarrow>
      cursor c (fst (snd (sync c env st))) = (if cursor c st <s M then M else cursor c st)) \<and>
   (GetPersistentValue_error env = None \<longrightarrow>
      cursor_writes (snd (snd (sync c env st))) = [Itoa (cycle_lastID c env st)] \<and>
      last (snd (snd (sync c env st))) =
        SetPersistentValue (stateKey c) (Itoa (cycle_lastID c env st)))"
proof (intro conjI impI)
  show "sorted_wrt (\<lambda>a b. cursor c a \<le>s cursor c b) (sync_cycles c envs st)"
    by (rule sync_cycles_sorted)
next
  assume h: "GetPersistentValue_error env = None \<and> SetPersistentValue_error env = None \<and>
    Search_result env (scan_query (components c) (cursor c st)) = Inr newBugs \<and>
    M \<in> ID ` set newBugs \<and> (\<forall>b\<in>set newBugs. ID b \<le>s M)"
  then have "cursor c (fst (snd (sync c env st))) = max_id (cursor c st) newBugs"
    by (simp add: sync_cursor cycle_lastID_def)
  also have "\<dots> = (if cursor c st <s M then M else cursor c st)"
    using h by (intro max_id_maximum) auto
  finally show "cursor c (fst (snd (sync c env st))) = (if cursor c st <s M then M else cursor c st)" .
next
  assume "GetPersistentValue_error env = None"
  then show "cursor_writes (snd (snd (sync c env st))) = [Itoa (cycle_lastID c env st)]"
    by (rule sync_trace)
next
  assume "GetPersistentValue_error env = None"
  then show "last (snd (snd (sync c env st))) =
        SetPersistentValue (stateKey c) (Itoa (cycle_lastID c env st))"
    by (rule sync_trace)
qed

text \<open>The cursor is 100, the scan returns the bugs 101 and 103, both posts fail and the
  write succeeds: the cursor is 103 afterwards, and it was written once.\<close>

theorem sync_cursor_monotone_witness:
  "(let env = example_cycle None [example_bug 101 ''NEW'' [], example_bug 103 ''NEW'' []]
                (Inl (Err ''rate limited'')) None;
        st = example_state ''100''
    in GetPersistentValue_error env = None \<and> SetPersistentValue_error env = None \<and>
       Search_result env (scan_query (components example_reporter) (cursor example_reporter st)) =
         Inr [example_bug 101 ''NEW'' [], example_bug 103 ''NEW'' []] \<and>
       103 \<in> ID ` set [example_bug 101 ''NEW'' [], example_bug 103 ''NEW'' []] \<and>
       (\<forall>b\<in>set [example_bug 101 ''NEW'' [], example_bug 103 ''NEW'' []]. ID b \<le>s 103) \<and>
       cursor example_reporter st = 100 \<and>
       cursor example_reporter (fst (snd (sync example_reporter env st))) = 103 \<and>
       cursor_writes (snd (snd (sync example_reporter env st))) = [''103''])"
  unfolding Let_def
  using sync_cursor_monotone [of example_reporter "[]" "example_state ''100''"
      "example_cycle None [example_bug 101 ''NEW'' [], example_bug 103 ''NEW'' []]
         (Inl (Err ''rate limited'')) None"
      "[example_bug 101 ''NEW'' [], example_bug 103 ''NEW'' []]" 103]
  by (simp add: cursor_example cycle_lastID_def example_cycle_def example_bug_def Itoa_103)

text \<open>
  Claim C1 as stated fails twice. A cycle whose cursor read fails returns before the
  write is deferred and writes nothing; and after a cycle whose scan returned the bugs 101
  and 103 but whose write failed, the persisted cursor is still 100.
\<close>

theorem sync_cursor_counterexample:
  "cursor_writes
     (snd (snd (sync example_reporter
        (example_cycle (Some (Err ''unavailable'')) [] (Inl (Err ''rate limited'')) None)
        (example_state ''100'')))) = [] \<and>
   cursor example_reporter
     (fst (snd (sync example_reporter
        (example_cycle None [example_bug 101 ''NEW'' [], example_bug 103 ''NEW'' []]
           (Inr (''C1'', ''1'')) (Some (Err ''write failed'')))
        (example_state ''100'')))) \<noteq> 103"
proof
  show "cursor_writes
     (snd (snd (sync example_reporter
        (example_cycle (Some (Err ''unavailable'')) [] (Inl (Err ''rate limited'')) None)
        (example_state ''100'')))) = []"
    by (simp add: sync_def example_cycle_def)
  have "cursor example_reporter
     (fst (snd (sync example_reporter
        (example_cycle None [example_bug 101 ''NEW'' [], example_bug 103 ''NEW'' []]
           (Inr (''C1'', ''1'')) (Some (Err ''write failed'')))
        (example_state ''100'')))) = 100"
    by (simp add: sync_cursor example_cycle_def cursor_example)
  then show "cursor example_reporter
     (fst (snd (sync example_reporter
        (example_cycle None [example_bug 101 ''NEW'' [], example_bug 103 ''NEW'' []]
           (Inr (''C1'', ''1'')) (Some (Err ''write failed'')))
        (example_state ''100'')))) \<noteq> 103"
    by simp
qed

text \<open>
  Claim C9. A cycle that got as far as the scan attempts the cursor write exactly once, as
  its last call and with its final \<^verbatim>\<open>lastID\<close>, whether the scan failed or succeeded and
  whatever the chat answered to the posts; and when the cursor was read, the scan
  succeeded and the cursor write fails, the write's error is the error the cycle returns.
\<close>

theorem sync_persist_attempted:
  "(searches (snd (snd (sync c env st))) \<noteq> [] \<longrightarrow>
      cursor_writes (snd (snd (sync c env st))) = [Itoa (cycle_lastID c env st)] \<and>
      last (snd (snd (sync c env st))) =
        SetPersistentValue (stateKey c) (Itoa (cycle_lastID c env st))) \<and>
   (GetPersistentValue_error env = None \<and>
    Search_result env (scan_query (components c) (cursor c st)) = Inr newBugs \<and>
    SetPersistentValue_error env = Some persistErr \<longrightarrow>
      fst (sync c env st) = Some persistErr)"
proof (intro conjI impI)
  assume s: "searches (snd (snd (sync c env st))) \<noteq> []"
  have r: "GetPersistentValue_error env = None"
  proof (cases "GetPersistentValue_error env")
    case None
    then show ?thesis .
  next
    case (Some e)
    then have "searches (snd (snd (sync c env st))) = []" by (rule sync_searches_read_failed)
    with s show ?thesis by simp
  qed
  from r show "cursor_writes (snd (snd (sync c env st))) = [Itoa (cycle_lastID c env st)]"
    by (rule sync_trace)
  from r show "last (snd (snd (sync c env st))) =
        SetPersistentValue (stateKey c) (Itoa (cycle_lastID c env st))"
    by (rule sync_trace)
next
  assume "GetPersistentValue_error env = None \<and>
    Search_result env (scan_query (components c) (cursor c st)) = Inr newBugs \<and>
    SetPersistentValue_error env = Some persistErr"
  then show "fst (sync c env st) = Some persistErr"
    by (simp add: sync_error)
qed

text \<open>A cycle whose scan fails still writes the cursor 100 it read; a cycle whose scan
  succeeds and whose write fails returns the write's error.\<close>

theorem sync_persist_attempted_witness:
  "searches
     (snd (snd (sync example_reporter
        ((example_cycle None [] (Inl (Err ''rate limited'')) (Some (Err ''write failed'')))
           \<lparr>Search_result := \<lambda>q. Inl (Err ''tracker unreachable'')\<rparr>)
        (example_state ''100'')))) \<noteq> [] \<and>
   cursor_writes
     (snd (snd (sync example_reporter
        ((example_cycle None [] (Inl (Err ''rate limited'')) (Some (Err ''write failed'')))
           \<lparr>Search_result := \<lambda>q. Inl (Err ''tracker unreachable'')\<rparr>)
        (example_state ''100'')))) = [''100''] \<and>
   fst (sync example_reporter
        (example_cycle None [example_bug 101 ''NEW'' []] (Inl (Err ''rate limited''))
           (Some (Err ''write failed'')))
        (example_state ''100'')) = Some (Err ''write failed'')"
proof -
  let ?env1 = "(example_cycle None [] (Inl (Err ''rate limited'')) (Some (Err ''write failed'')))
           \<lparr>Search_result := \<lambda>q. Inl (Err ''tracker unreachable'')\<rparr>"
  let ?env2 = "example_cycle None [example_bug 101 ''NEW'' []] (Inl (Err ''rate limited''))
           (Some (Err ''write failed''))"
  have s: "searches (snd (snd (sync example_reporter ?env1 (example_state ''100'')))) \<noteq> []"
    by (simp add: sync_trace example_cycle_def)
  have "cursor_writes (snd (snd (sync example_reporter ?env1 (example_state ''100'')))) = [''100'']"
    using s sync_persist_attempted [of example_reporter ?env1 "example_state ''100''"]
    by (simp add: cycle_lastID_def cursor_example example_cycle_def Itoa_100)
  moreover have "fst (sync example_reporter ?env2 (example_state ''100'')) = Some (Err ''write failed'')"
    using sync_persist_attempted [of example_reporter ?env2 "example_state ''100''"
        "[example_bug 101 ''NEW'' []]" "Err ''write failed''"]
    by (simp add: example_cycle_def)
  ultimately show ?thesis using s by simp
qed

text \<open>
  Claim C7. When the scan of a second cycle returns no items, the cursor and the registry
  after the second cycle are those after the first, whatever happened in the first cycle
  and whether or not the second cycle's cursor read or write fails; and when the first
  cycle wrote the cursor, the whole state, the stored string included, is unchanged.
\<close>

theorem sync_idempotent:
  fixes c env1 env2 st
  defines "st1 \<equiv> fst (snd (sync c env1 st))"
  defines "st2 \<equiv> fst (snd (sync c env2 st1))"
  assumes "Search_result env2 (scan_query (components c) (cursor c st1)) = Inr []"
  shows "cursor c st2 = cursor c st1 \<and>
         messagesToWatchAndUpdate st2 = messagesToWatchAndUpdate st1 \<and>
         (GetPersistentValue_error env1 = None \<and> SetPersistentValue_error env1 = None \<longrightarrow>
            st2 = st1)"
proof (intro conjI impI)
  show "cursor c st2 = cursor c st1"
    unfolding st2_def using assms(3) by (rule sync_empty_scan)
  show "messagesToWatchAndUpdate st2 = messagesToWatchAndUpdate st1"
    unfolding st2_def using assms(3) by (rule sync_empty_scan)
  assume w: "GetPersistentValue_error env1 = None \<and> SetPersistentValue_error env1 = None"
  then have "persistent st1 (stateKey c) = Itoa (cycle_lastID c env1 st)"
    unfolding st1_def by (simp add: sync_persistent)
  moreover have "cursor c st1 = cycle_lastID c env1 st"
    unfolding st1_def using w by (simp add: sync_cursor)
  ultimately have "persistent st1 (stateKey c) = Itoa (cursor c st1)" by simp
  with assms(3) show "st2 = st1"
    unfolding st2_def by (rule sync_empty_scan)
qed

text \<open>The first cycle finds the bugs 101 and 103, the second finds nothing: the cursor
  stays 103 and the registry keeps its two entries.\<close>

theorem sync_idempotent_witness:
  "(let env1 = example_cycle None [example_bug 101 ''NEW'' [], example_bug 103 ''NEW'' []]
                 (Inr (''C1'', ''1'')) None;
        env2 = example_cycle None [] (Inr (''C1'', ''1'')) None;
        st1 = fst (snd (sync example_reporter env1 (example_state ''100'')));
        st2 = fst (snd (sync example_reporter env2 st1))
    in Search_result env2
         (scan_query (components example_reporter) (cursor example_reporter st1)) = Inr [] \<and>
       cursor example_reporter st1 = 103 \<and>
       cursor example_reporter st2 = 103 \<and>
       map message.ID (messagesToWatchAndUpdate st2) = [101, 103] \<and>
       st2 = st1)"
proof -
  let ?env1 = "example_cycle None [example_bug 101 ''NEW'' [], example_bug 103 ''NEW'' []]
                 (Inr (''C1'', ''1'')) None"
  let ?env2 = "example_cycle None [] (Inr (''C1'', ''1'')) None"
  let ?st1 = "fst (snd (sync example_reporter ?env1 (example_state ''100'')))"
  have h: "Search_result ?env2 (scan_query (components example_reporter)
             (cursor example_reporter ?st1)) = Inr []"
    by (simp add: example_cycle_def)
  have c1: "cursor example_reporter ?st1 = 103"
    by (simp add: sync_cursor cycle_lastID_def cursor_example example_cycle_def example_bug_def)
  have r1: "map message.ID (messagesToWatchAndUpdate ?st1) = [101, 103]"
    by (simp add: sync_registry cursor_example example_cycle_def example_bug_def Let_def
        example_state_def)
  show ?thesis
    unfolding Let_def
    using sync_idempotent [of ?env2 example_reporter ?env1 "example_state ''100''", OF h] h c1 r1
    by (simp add: example_cycle_def)
qed

text \<open>
  Claim C6 says that a cycle in which a post failed returns an error that reflects the
  failure. The source collects such errors in \<^verbatim>\<open>errs\<close> and returns their aggregate, but no
  statement ever appends to \<^verbatim>\<open>errs\<close>. With the cursor at 100, one new bug 101 and a post
  that fails, the cycle returns no error, reports nothing to the recorder or the log,
  registers no message and moves the cursor to 101, so the bug is not posted again.
\<close>

theorem sync_drops_post_failure:
  "fst (sync example_reporter
          (example_cycle None [example_bug 101 ''NEW'' []] (Inl (Err ''rate limited'')) None)
          (example_state ''100'')) = None \<and>
   reports (snd (snd (sync example_reporter
          (example_cycle None [example_bug 101 ''NEW'' []] (Inl (Err ''rate limited'')) None)
          (example_state ''100'')))) = [] \<and>
   messagesToWatchAndUpdate (fst (snd (sync example_reporter
          (example_cycle None [example_bug 101 ''NEW'' []] (Inl (Err ''rate limited'')) None)
          (example_state ''100'')))) = [] \<and>
   persistent (fst (snd (sync example_reporter
          (example_cycle None [example_bug 101 ''NEW'' []] (Inl (Err ''rate limited'')) None)
          (example_state ''100'')))) (stateKey example_reporter) = ''101''"
proof -
  let ?env = "example_cycle None [example_bug 101 ''NEW'' []] (Inl (Err ''rate limited'')) None"
  have r: "GetPersistentValue_error ?env = None" by (simp add: example_cycle_def)
  have w: "SetPersistentValue_error ?env = None" by (simp add: example_cycle_def)
  have l: "cycle_lastID example_reporter ?env (example_state ''100'') = 101"
    by (simp add: cycle_lastID_def cursor_example example_cycle_def example_bug_def)
  have "fst (sync example_reporter ?env (example_state ''100'')) = None"
    by (simp add: sync_error [OF r]) (simp add: example_cycle_def)
  moreover have "reports (snd (snd (sync example_reporter ?env (example_state ''100'')))) = []"
    by (simp add: sync_calls [OF r] parse_warning_example reports_append)
       (simp add: example_cycle_def post_call_def)
  moreover have "messagesToWatchAndUpdate
      (fst (snd (sync example_reporter ?env (example_state ''100'')))) = []"
    by (simp add: sync_registry [OF r])
       (simp add: example_cycle_def example_state_def Let_def)
  moreover have "persistent (fst (snd (sync example_reporter ?env (example_state ''100''))))
      (stateKey example_reporter) = ''101''"
    by (simp add: sync_persistent [OF r] w l Itoa_101)
  ultimately show ?thesis by simp
qed

section \<open>Properties of the reconciliation loop\<close>

subsection \<open>The registry after a pass\<close>

lemma notTooOldMessages_filter:
  "notTooOldMessages env ms = filter (\<lambda>m. \<not> too_old env m) ms"
  by (induction ms) (simp_all add: too_old_def Before_def Add_def)

lemma reconcile_entry_panics:
  "entry_panics env m \<Longrightarrow> \<exists>v tr. reconcile_entry c env m = (Fault v, tr)"
  by (auto simp: entry_panics_def reconcile_entry_def Let_def
      split: call.splits fetch_result.splits option.splits)

lemma reconcile_entry_returns:
  "\<not> entry_panics env m \<Longrightarrow>
     \<exists>tr. reconcile_entry c env m = (if left_NEW env m then Drop else Keep, tr)"
  by (auto simp: entry_panics_def left_NEW_def reconcile_entry_def Let_def
      split: call.splits fetch_result.splits option.splits)

lemma reconcile_Done:
  "\<not> list_ex (entry_panics env) ms \<Longrightarrow>
     fst (reconcile c env ms) = Done (filter (\<lambda>m. \<not> left_NEW env m) ms)"
proof (induction ms)
  case Nil
  show ?case by simp
next
  case (Cons m ms)
  then have p: "\<not> entry_panics env m" and q: "\<not> list_ex (entry_panics env) ms"
    by simp_all
  from q have ih: "fst (reconcile c env ms) = Done (filter (\<lambda>m. \<not> left_NEW env m) ms)"
    by (rule Cons.IH)
  obtain tr where e: "reconcile_entry c env m = (if left_NEW env m then Drop else Keep, tr)"
    using reconcile_entry_returns [OF p] by blast
  obtain tr' where r: "reconcile c env ms = (Done (filter (\<lambda>m. \<not> left_NEW env m) ms), tr')"
    using ih by (cases "reconcile c env ms") simp
  show ?case by (simp add: e r)
qed

lemma reconcile_Panicking:
  "list_ex (entry_panics env) ms \<Longrightarrow> \<exists>v. fst (reconcile c env ms) = Panicking v"
proof (induction ms)
  case Nil
  then show ?case by simp
next
  case (Cons m ms)
  show ?case
  proof (cases "entry_panics env m")
    case True
    then obtain v tr where "reconcile_entry c env m = (Fault v, tr)"
      using reconcile_entry_panics by blast
    then show ?thesis by simp
  next
    case False
    with Cons.prems have "list_ex (entry_panics env) ms" by simp
    then obtain v where "fst (reconcile c env ms) = Panicking v"
      using Cons.IH by blast
    then obtain tr' where r: "reconcile c env ms = (Panicking v, tr')"
      by (cases "reconcile c env ms") simp
    obtain tr where e: "reconcile_entry c env m = (if left_NEW env m then Drop else Keep, tr)"
      using reconcile_entry_returns [OF False] by blast
    show ?thesis by (simp add: e r)
  qed
qed

lemma pass_registry:
  assumes "\<not> pass_panics env (messagesToWatchAndUpdate st)"
  shows "messagesToWatchAndUpdate (fst (updateMessages_pass c env st)) =
     filter (\<lambda>m. \<not> too_old env m \<and> \<not> left_NEW env m) (messagesToWatchAndUpdate st)"
proof -
  let ?ms = "filter (\<lambda>m. \<not> too_old env m) (messagesToWatchAndUpdate st)"
  from assms have "\<not> list_ex (entry_panics env) ?ms" by (simp add: pass_panics_def)
  then have "fst (reconcile c env ?ms) = Done (filter (\<lambda>m. \<not> left_NEW env m) ?ms)"
    by (rule reconcile_Done)
  then obtain tr where "reconcile c env ?ms = (Done (filter (\<lambda>m. \<not> left_NEW env m) ?ms), tr)"
    by (cases "reconcile c env ?ms") simp
  then have "messagesToWatchAndUpdate (fst (updateMessages_pass c env st)) =
      filter (\<lambda>m. \<not> left_NEW env m) ?ms"
    by (simp add: updateMessages_pass_def notTooOldMessages_filter)
  also have "\<dots> = filter (\<lambda>m. \<not> too_old env m \<and> \<not> left_NEW env m) (messagesToWatchAndUpdate st)"
    by (simp add: conj_commute)
  finally show ?thesis .
qed

lemma pass_registry_panic:
  assumes "pass_panics env (messagesToWatchAndUpdate st)"
  shows "messagesToWatchAndUpdate (fst (updateMessages_pass c env st)) =
     filter (\<lambda>m. \<not> too_old env m) (messagesToWatchAndUpdate st)"
proof -
  let ?ms = "filter (\<lambda>m. \<not> too_old env m) (messagesToWatchAndUpdate st)"
  from assms have "list_ex (entry_panics env) ?ms" by (simp add: pass_panics_def)
  then obtain v where "fst (reconcile c env ?ms) = Panicking v"
    using reconcile_Panicking by blast
  then obtain tr where "reconcile c env ?ms = (Panicking v, tr)"
    by (cases "reconcile c env ?ms") simp
  then show ?thesis
    by (simp add: updateMessages_pass_def notTooOldMessages_filter)
qed

lemma example_too_old:
  "too_old (example_pass now fetch edit) (example_message t n) \<longleftrightarrow> t < now - 30 * 24 * Hour"
  by (simp add: too_old_def example_pass_def example_message_def)

lemma example_left_NEW:
  "left_NEW (example_pass now example_tracker edit) (example_message t n) \<longleftrightarrow> n = 101"
  by (simp add: left_NEW_def example_pass_def example_message_def
      example_tracker_def example_bug_def)

lemma example_entry_panics:
  "\<not> entry_panics (example_pass now example_tracker edit) (example_message t n)"
  by (simp add: entry_panics_def example_pass_def example_message_def
      example_tracker_def example_bug_def)

lemma example_cut_left_NEW:
  "left_NEW (example_pass now example_nil_tracker edit) (example_message t n) \<longleftrightarrow> n = 101"
  by (simp add: left_NEW_def example_pass_def example_message_def example_nil_tracker_def
      example_tracker_def example_bug_def)

lemma example_cut_entry_panics:
  "entry_panics (example_pass now example_nil_tracker edit) (example_message t n) \<longleftrightarrow> n = 107"
  by (simp add: entry_panics_def example_pass_def example_message_def example_nil_tracker_def
      example_tracker_def example_bug_def)

lemma Day_pos: "0 < Day"
  by (simp add: Day_def Hour_def)

lemma example_pass_panics:
  "\<not> pass_panics example_pass_env example_registry"
  "pass_panics example_cut_pass_env example_cut_registry"
  by (simp_all add: pass_panics_def example_pass_env_def example_cut_pass_env_def
      example_registry_def example_cut_registry_def example_too_old example_entry_panics
      example_cut_entry_panics Day_def Hour_def)

text \<open>
  Claim C4, amended. In a pass in which no call panics, an entry of the registry is
  removed if and only if it was created more than 30 days before the clock reading of its
  age check, or the fetch of its item succeeded with a status other than \<^verbatim>\<open>NEW\<close>: the
  registry after the pass consists of exactly the other entries, in their order. So an
  entry not older than that whose fetch fails is kept, and an entry whose item left
  \<^verbatim>\<open>NEW\<close> is dropped also when the edit returns an error. In a pass whose second loop
  is cut short by a panic, from which \<^verbatim>\<open>updateMessages\<close> recovers, an entry is removed if
  and only if it is older than 30 days.
\<close>

theorem pass_removes_iff:
  "(\<not> pass_panics env (messagesToWatchAndUpdate st) \<longrightarrow>
      messagesToWatchAndUpdate (fst (updateMessages_pass c env st)) =
        filter (\<lambda>m. \<not> too_old env m \<and> \<not> left_NEW env m) (messagesToWatchAndUpdate st) \<and>
      (m \<in> set (messagesToWatchAndUpdate st) \<longrightarrow>
         (m \<notin> set (messagesToWatchAndUpdate (fst (updateMessages_pass c env st)))
            \<longleftrightarrow> too_old env m \<or> left_NEW env m)) \<and>
      (m \<in> set (messagesToWatchAndUpdate st) \<and> \<not> too_old env m \<and>
       GetCachedBug_for env m = Returns (FetchFailed b err) \<longrightarrow>
         m \<in> set (messagesToWatchAndUpdate (fst (updateMessages_pass c env st)))) \<and>
      (left_NEW env m \<and> UpdateMessage_for env m = Returns (Some err') \<longrightarrow>
         m \<notin> set (messagesToWatchAndUpdate (fst (updateMessages_pass c env st))))) \<and>
   (pass_panics env (messagesToWatchAndUpdate st) \<longrightarrow>
      messagesToWatchAndUpdate (fst (updateMessages_pass c env st)) =
        filter (\<lambda>m. \<not> too_old env m) (messagesToWatchAndUpdate st) \<and>
      (m \<in> set (messagesToWatchAndUpdate st) \<longrightarrow>
         (m \<notin> set (messagesToWatchAndUpdate (fst (updateMessages_pass c env st)))
            \<longleftrightarrow> too_old env m)))"
proof (intro conjI impI)
  assume p: "\<not> pass_panics env (messagesToWatchAndUpdate st)"
  show r: "messagesToWatchAndUpdate (fst (updateMessages_pass c env st)) =
        filter (\<lambda>m. \<not> too_old env m \<and> \<not> left_NEW env m) (messagesToWatchAndUpdate st)"
    using p by (rule pass_registry)
  {
    assume "m \<in> set (messagesToWatchAndUpdate st)"
    then show "m \<notin> set (messagesToWatchAndUpdate (fst (updateMessages_pass c env st)))
            \<longleftrightarrow> too_old env m \<or> left_NEW env m"
      by (auto simp: r)
  }
  {
    assume "m \<in> set (messagesToWatchAndUpdate st) \<and> \<not> too_old env m \<and>
       GetCachedBug_for env m = Returns (FetchFailed b err)"
    then show "m \<in> set (messagesToWatchAndUpdate (fst (updateMessages_pass c env st)))"
      by (simp add: r left_NEW_def)
  }
  {
    assume "left_NEW env m \<and> UpdateMessage_for env m = Returns (Some err')"
    then show "m \<notin> set (messagesToWatchAndUpdate (fst (updateMessages_pass c env st)))"
      by (simp add: r)
  }
next
  assume p: "pass_panics env (messagesToWatchAndUpdate st)"
  show r: "messagesToWatchAndUpdate (fst (updateMessages_pass c env st)) =
        filter (\<lambda>m. \<not> too_old env m) (messagesToWatchAndUpdate st)"
    using p by (rule pass_registry_panic)
  assume "m \<in> set (messagesToWatchAndUpdate st)"
  then show "m \<notin> set (messagesToWatchAndUpdate (fst (updateMessages_pass c env st)))
            \<longleftrightarrow> too_old env m"
    by (auto simp: r)
qed

text \<open>A pass at day 45 whose edits fail, over entries of day 0 (bug 103), day 40 (bug 101,
  now closed), day 41 (bug 103, still new) and day 42 (bug 105, whose fetch fails): no call
  panics, the first two entries are removed and the last two are kept. And a pass over
  the entries of the bugs 101, 103 and 107 in which the fetch of 107 makes the pass panic:
  no entry is older than 30 days, and all three stay.\<close>

theorem pass_removes_iff_witness:
  "\<not> pass_panics example_pass_env example_registry \<and>
   example_message (40 * Day) 101 \<in> set example_registry \<and>
   example_message (40 * Day) 101 \<notin>
     set (messagesToWatchAndUpdate
            (fst (updateMessages_pass example_reporter example_pass_env
                    ((example_state ''103'')\<lparr>messagesToWatchAndUpdate := example_registry\<rparr>)))) \<and>
   messagesToWatchAndUpdate
     (fst (updateMessages_pass example_reporter example_pass_env
             ((example_state ''103'')\<lparr>messagesToWatchAndUpdate := example_registry\<rparr>))) =
     [example_message (41 * Day) 103, example_message (42 * Day) 105] \<and>
   pass_panics example_cut_pass_env example_cut_registry \<and>
   messagesToWatchAndUpdate
     (fst (updateMessages_pass example_reporter example_cut_pass_env
             ((example_state ''103'')\<lparr>messagesToWatchAndUpdate := example_cut_registry\<rparr>))) =
     example_cut_registry"
proof -
  let ?m = "example_message (40 * Day) 101"
  let ?st = "(example_state ''103'')\<lparr>messagesToWatchAndUpdate := example_registry\<rparr>"
  let ?after = "messagesToWatchAndUpdate
                  (fst (updateMessages_pass example_reporter example_pass_env ?st))"
  let ?st' = "(example_state ''103'')\<lparr>messagesToWatchAndUpdate := example_cut_registry\<rparr>"
  let ?after' = "messagesToWatchAndUpdate
                   (fst (updateMessages_pass example_reporter example_cut_pass_env ?st'))"
  note t = pass_removes_iff [of example_pass_env ?st example_reporter ?m]
  note t' = pass_removes_iff [of example_cut_pass_env ?st' example_reporter ?m]
  have p: "\<not> pass_panics example_pass_env (messagesToWatchAndUpdate ?st)"
    by (simp add: example_pass_panics)
  have p': "pass_panics example_cut_pass_env (messagesToWatchAndUpdate ?st')"
    by (simp add: example_pass_panics)
  have m: "?m \<in> set example_registry"
    by (simp add: example_registry_def)
  then have "?m \<in> set (messagesToWatchAndUpdate ?st)" by simp
  with t p have "?m \<notin> set ?after \<longleftrightarrow>
      too_old example_pass_env ?m \<or> left_NEW example_pass_env ?m"
    by blast
  then have gone: "?m \<notin> set ?after"
    by (simp add: example_pass_env_def example_left_NEW)
  from t p have "?after =
      filter (\<lambda>m. \<not> too_old example_pass_env m \<and> \<not> left_NEW example_pass_env m)
        (messagesToWatchAndUpdate ?st)"
    by blast
  then have a: "?after = [example_message (41 * Day) 103, example_message (42 * Day) 105]"
    by (simp add: example_registry_def example_pass_env_def example_too_old example_left_NEW
        Day_def Hour_def)
  from t' p' have "?after' =
      filter (\<lambda>m. \<not> too_old example_cut_pass_env m) (messagesToWatchAndUpdate ?st')"
    by blast
  then have a': "?after' = example_cut_registry"
    by (simp add: example_cut_registry_def example_cut_pass_env_def example_too_old
        Day_def Hour_def)
  from p p' m gone a a' show ?thesis by simp
qed

text \<open>
  Claim C4 as stated fails in a pass that a panic cuts short. The registry holds the
  entries of the bugs 101, 103 and 107, none older than 30 days; bug 101 has left \<^verbatim>\<open>NEW\<close>
  and its notification is edited; the fetch of bug 107 returns neither a bug nor an error,
  and \<^verbatim>\<open>b.Status\<close> panics. The entry of bug 101 is still in the registry after the pass.
\<close>

theorem pass_removes_counterexample:
  "example_message (40 * Day) 101 \<in> set example_cut_registry \<and>
   left_NEW example_cut_pass_env (example_message (40 * Day) 101) \<and>
   example_message (40 * Day) 101 \<in>
     set (messagesToWatchAndUpdate
            (fst (updateMessages_pass example_reporter example_cut_pass_env
                    ((example_state ''103'')\<lparr>messagesToWatchAndUpdate := example_cut_registry\<rparr>))))"
proof -
  let ?st' = "(example_state ''103'')\<lparr>messagesToWatchAndUpdate := example_cut_registry\<rparr>"
  have "pass_panics example_cut_pass_env (messagesToWatchAndUpdate ?st')"
    by (simp add: example_pass_panics)
  then have "messagesToWatchAndUpdate
      (fst (updateMessages_pass example_reporter example_cut_pass_env ?st')) =
      filter (\<lambda>m. \<not> too_old example_cut_pass_env m) (messagesToWatchAndUpdate ?st')"
    by (rule pass_registry_panic)
  then have "messagesToWatchAndUpdate
      (fst (updateMessages_pass example_reporter example_cut_pass_env ?st')) =
      example_cut_registry"
    by (simp add: example_cut_registry_def example_cut_pass_env_def example_too_old
        Day_def Hour_def)
  moreover have "example_message (40 * Day) 101 \<in> set example_cut_registry"
    by (simp add: example_cut_registry_def)
  moreover have "left_NEW example_cut_pass_env (example_message (40 * Day) 101)"
    by (simp add: example_cut_pass_env_def example_cut_left_NEW)
  ultimately show ?thesis by simp
qed

subsection \<open>The lock and the sleep\<close>

lemma sleeps_unlocked_entry:
  "reconcile_entry c env m = (s, tm) \<Longrightarrow>
     sleeps_unlocked held (tm @ t) = sleeps_unlocked held t"
  by (auto simp: reconcile_entry_def Let_def
      split: call.splits fetch_result.splits option.splits if_splits)

lemma sleeps_unlocked_reconcile:
  "reconcile c env ms = (r, tr) \<Longrightarrow>
     sleeps_unlocked held (tr @ t) = sleeps_unlocked held t"
proof (induction ms arbitrary: r tr t)
  case Nil
  then show ?case by simp
next
  case (Cons m ms)
  obtain s tm where e: "reconcile_entry c env m = (s, tm)"
    by (cases "reconcile_entry c env m")
  obtain r' tr' where r: "reconcile c env ms = (r', tr')"
    by (cases "reconcile c env ms")
  have q: "sleeps_unlocked held (tm @ u) = sleeps_unlocked held u" for u
    using e by (rule sleeps_unlocked_entry)
  have ih: "sleeps_unlocked held (tr' @ u) = sleeps_unlocked held u" for u
    using r by (rule Cons.IH)
  show ?case
  proof (cases s)
    case (Fault v)
    with Cons.prems e have "tr = tm" by simp
    then show ?thesis by (simp add: q)
  next
    case Keep
    with Cons.prems e r have "tr = tm @ tr'" by (cases r') simp_all
    then show ?thesis by (simp add: q ih)
  next
    case Drop
    with Cons.prems e r have "tr = tm @ tr'" by (cases r') simp_all
    then show ?thesis by (simp add: q ih)
  qed
qed

text \<open>Every pass that no panic cuts short sleeps while it holds the lock; a pass cut short
  by a panic does not sleep at all.\<close>

lemma pass_sleeps_locked:
  assumes "\<not> pass_panics env (messagesToWatchAndUpdate st)"
  shows "\<not> sleeps_unlocked False (snd (updateMessages_pass c env st))"
proof -
  let ?ms = "filter (\<lambda>m. \<not> too_old env m) (messagesToWatchAndUpdate st)"
  from assms have "\<not> list_ex (entry_panics env) ?ms" by (simp add: pass_panics_def)
  then have "fst (reconcile c env ?ms) = Done (filter (\<lambda>m. \<not> left_NEW env m) ?ms)"
    by (rule reconcile_Done)
  then obtain tr where r: "reconcile c env ?ms = (Done (filter (\<lambda>m. \<not> left_NEW env m) ?ms), tr)"
    by (cases "reconcile c env ?ms") simp
  show ?thesis
    by (simp add: updateMessages_pass_def notTooOldMessages_filter r
        sleeps_unlocked_reconcile [OF r])
qed

lemma pass_panics_no_sleep:
  assumes "pass_panics env (messagesToWatchAndUpdate st)"
  shows "sleeps_unlocked False (snd (updateMessages_pass c env st))"
proof -
  let ?ms = "filter (\<lambda>m. \<not> too_old env m) (messagesToWatchAndUpdate st)"
  from assms have "list_ex (entry_panics env) ?ms" by (simp add: pass_panics_def)
  then obtain v where "fst (reconcile c env ?ms) = Panicking v"
    using reconcile_Panicking by blast
  then obtain tr where r: "reconcile c env ?ms = (Panicking v, tr)"
    by (cases "reconcile c env ?ms") simp
  show ?thesis
    by (simp add: updateMessages_pass_def notTooOldMessages_filter r
        sleeps_unlocked_reconcile [OF r])
qed

lemma sleeps_unlocked_prefix:
  "\<not> sleeps_unlocked held tr \<Longrightarrow> \<not> sleeps_unlocked held (tr @ tr')"
  by (induction held tr rule: sleeps_unlocked.induct) auto

lemma updateMessages_sleeps_locked:
  "\<not> pass_panics env (messagesToWatchAndUpdate st) \<Longrightarrow>
     \<not> sleeps_unlocked False (snd (updateMessages c (env # envs) st))"
  by (simp add: sleeps_unlocked_prefix pass_sleeps_locked case_prod_beta)

text \<open>
  Claim C3 says that a pass releases the registry lock before the loop sleeps. In the
  source the sleep is the last statement of the function literal whose deferred unlock
  runs when the literal returns: every pass that reaches its sleep sleeps the hour holding
  the lock, and the next pass takes the lock again at once. For the empty registry the
  calls of a pass are the lock, the sleep and the unlock, in this order.
\<close>

theorem pass_sleeps_locked_example:
  "snd (updateMessages_pass example_reporter example_pass_env (example_state ''100'')) =
     [Lock, Sleep Hour, Unlock] \<and>
   \<not> sleeps_unlocked False
       (snd (updateMessages_pass example_reporter example_pass_env (example_state ''100'')))"
  by (simp add: updateMessages_pass_def example_state_def)

section \<open>Properties of the claim handler\<close>

text \<open>
  The guards of the handler, once the payload is decoded, the profile is found and the
  item is fetched: no update and a status message when the status is not \<^verbatim>\<open>NEW\<close>; no
  update and an assignee message when the item has an assignee other than the payload's;
  one update otherwise.
\<close>

lemma takeClicked_guards:
  assumes "Unmarshal c action_Value = Inr val"
    and "GetUserProfile_result env = Inr email"
    and "GetCachedBug_first env = Fetched b"
  shows "(Status b \<noteq> ''NEW'' \<longrightarrow>
            update_calls (snd (takeClicked c env msg user_ID action_Value)) = [] \<and>
            ephemeral_texts (snd (takeClicked c env msg user_ID action_Value)) =
              [''Bug '' @ bug_url (TakeValue.ID val) @ '' has been moved already to '' @ Status b]) \<and>
         (Status b = ''NEW'' \<and> AssignedTo b \<noteq> [] \<and> AssignedTo b \<noteq> OldAssignee val \<longrightarrow>
            update_calls (snd (takeClicked c env msg user_ID action_Value)) = [] \<and>
            ephemeral_texts (snd (takeClicked c env msg user_ID action_Value)) =
              [''Bug '' @ bug_url (TakeValue.ID val) @ '' has already been assigned to ''
                 @ OldAssignee val]) \<and>
         (Status b = ''NEW'' \<and> (AssignedTo b = [] \<or> AssignedTo b = OldAssignee val) \<longrightarrow>
            update_calls (snd (takeClicked c env msg user_ID action_Value)) =
              [(TakeValue.ID val,
                \<lparr>BugUpdate.Status = ''ASSIGNED'',
                 BugUpdate.AssignedTo = SlackEmailToBugzilla c email\<rparr>)])"
  using assms
  by (auto simp: takeClicked_def ephemeral_def Let_def
      split: option.splits fetch_result.splits)

text \<open>When the update succeeded and the second fetch fails, what happens depends on the
  pointer returned beside the error; the original message is not edited in either case.\<close>

lemma takeClicked_refetch_failed:
  assumes "Unmarshal c action_Value = Inr val"
    and "GetUserProfile_result env = Inr email"
    and "GetCachedBug_first env = Fetched b"
    and "Status b = ''NEW''"
    and "AssignedTo b = [] \<or> AssignedTo b = OldAssignee val"
    and "UpdateBug_error env = None"
    and "GetCachedBug_second env = FetchFailed b' err"
  shows "(case b' of
            None \<Rightarrow>
              fst (takeClicked c env msg user_ID action_Value) = Panicked \<and>
              channel_messages (snd (takeClicked c env msg user_ID action_Value)) = []
          | Some b2 \<Rightarrow>
              fst (takeClicked c env msg user_ID action_Value) = Returned \<and>
              channel_messages (snd (takeClicked c env msg user_ID action_Value)) =
                [SlackEmailToBugzilla c email @ '' took: '' @ FormatBugMessage c b2]) \<and>
         edits (snd (takeClicked c env msg user_ID action_Value)) = []"
  using assms
  by (auto simp: takeClicked_def ephemeral_def Let_def split: option.splits)

text \<open>
  Claim C2 says that when the fetched item has an assignee that differs from the payload's
  expected assignee, no update is made and the ephemeral error names the item's actual
  assignee. The source makes no update, but formats the message with
  \<^verbatim>\<open>value.OldAssignee\<close>, the expected assignee, where the log line beside it has both. For a
  payload that expects \<open>alice\<close> and an item now assigned to \<open>bob\<close>, the user is told that
  the bug has already been assigned to \<open>alice\<close>.
\<close>

theorem takeClicked_names_expected_assignee:
  "ephemeral_texts
     (snd (takeClicked example_reporter
             (example_claim (Fetched (example_bug 103 ''NEW'' ''bob'')) (FetchFailed None (Err ''timeout'')))
             example_container ''U1'' ''103:alice'')) =
     [''Bug https://bugzilla.redhat.com/show_bug.cgi?id=103 has already been assigned to alice''] \<and>
   update_calls
     (snd (takeClicked example_reporter
             (example_claim (Fetched (example_bug 103 ''NEW'' ''bob'')) (FetchFailed None (Err ''timeout'')))
             example_container ''U1'' ''103:alice'')) = []"
  using takeClicked_guards [of example_reporter "''103:alice''"
      "\<lparr>TakeValue.ID = 103, OldAssignee = ''alice''\<rparr>"
      "example_claim (Fetched (example_bug 103 ''NEW'' ''bob'')) (FetchFailed None (Err ''timeout''))"
      "''carol@example.com''" "example_bug 103 ''NEW'' ''bob''" example_container "''U1''"]
  by (simp add: example_reporter_def example_claim_def example_bug_def bug_url_def Itoa_103)

text \<open>
  Claim C8 says that when the update succeeded and the second fetch fails, the handler
  posts a plain confirmation and ends without a fault. The source formats the
  confirmation from \<^verbatim>\<open>*b\<close>, and \<^verbatim>\<open>b\<close> has just been overwritten with the pointer of the
  failed fetch. When that pointer is nil, as it is when a fetch returns nothing but its
  error, the task panics after the update and before any message: the claim was made in
  the tracker, nothing is posted and nothing is edited.
\<close>

theorem takeClicked_refetch_failure_panics:
  "fst (takeClicked example_reporter
          (example_claim (Fetched (example_bug 103 ''NEW'' [])) (FetchFailed None (Err ''timeout'')))
          example_container ''U1'' ''103:'') = Panicked \<and>
   update_calls
     (snd (takeClicked example_reporter
          (example_claim (Fetched (example_bug 103 ''NEW'' [])) (FetchFailed None (Err ''timeout'')))
          example_container ''U1'' ''103:'')) =
     [(103, \<lparr>BugUpdate.Status = ''ASSIGNED'', BugUpdate.AssignedTo = ''carol@example.com''\<rparr>)] \<and>
   channel_messages
     (snd (takeClicked example_reporter
          (example_claim (Fetched (example_bug 103 ''NEW'' [])) (FetchFailed None (Err ''timeout'')))
          example_container ''U1'' ''103:'')) = [] \<and>
   edits
     (snd (takeClicked example_reporter
          (example_claim (Fetched (example_bug 103 ''NEW'' [])) (FetchFailed None (Err ''timeout'')))
          example_container ''U1'' ''103:'')) = []"
  by (simp add: takeClicked_def example_reporter_def example_claim_def example_bug_def)

section \<open>Properties of the scanner\<close>

lemma relative_time_168h: "relative_time ''-168h'' = Some (- (168 * Hour))"
  by (simp add: relative_time_def digit_val_def)

lemma scan_query_matches_bootstrap:
  "query_matches now (scan_query comps 0) it \<longleftrightarrow>
     in_scope comps it \<and> now - 7 * 24 * Hour \<le> creation_ts it"
  by (auto simp: query_matches_def scan_query_def advanced_matches_def in_scope_def
      relative_time_168h)

lemma scan_query_matches_cursor:
  "k \<noteq> 0 \<Longrightarrow> query_matches now (scan_query comps k) it \<longleftrightarrow> in_scope comps it \<and> k <s ID (bug it)"
  by (auto simp: query_matches_def scan_query_def advanced_matches_def in_scope_def Atoi_Itoa)

lemma sless_not_zero: "(0::go_int) <s k \<Longrightarrow> k \<noteq> 0"
  by (auto simp: word_sless_alt)

text \<open>
  Claim C5. Against the tracker of the query contract, the scanner run with \<^verbatim>\<open>lastID\<close> 0
  returns exactly the items of its fixed scope that were created in the last 7 days, and
  run with a \<^verbatim>\<open>lastID\<close> \<open>k\<close> above 0 it returns exactly the items of that scope whose id
  is above \<open>k\<close>.
\<close>

theorem scanner_selects:
  "getNewBugs (tracker_Search now items) comps 0 =
     Inr (map bug (filter (\<lambda>it. in_scope comps it \<and> now - 7 * 24 * Hour \<le> creation_ts it) items)) \<and>
   (0 <s k \<longrightarrow>
      getNewBugs (tracker_Search now items) comps k =
        Inr (map bug (filter (\<lambda>it. in_scope comps it \<and> k <s ID (bug it)) items)))"
proof (intro conjI impI)
  have "query_matches now (scan_query comps 0) =
          (\<lambda>it. in_scope comps it \<and> now - 7 * 24 * Hour \<le> creation_ts it)"
    by (rule ext) (rule scan_query_matches_bootstrap)
  then show "getNewBugs (tracker_Search now items) comps 0 =
     Inr (map bug (filter (\<lambda>it. in_scope comps it \<and> now - 7 * 24 * Hour \<le> creation_ts it) items))"
    by (simp add: getNewBugs_def tracker_Search_def)
next
  assume "0 <s k"
  then have "k \<noteq> 0" by (rule sless_not_zero)
  then have "query_matches now (scan_query comps k) = (\<lambda>it. in_scope comps it \<and> k <s ID (bug it))"
    by (intro ext) (rule scan_query_matches_cursor)
  then show "getNewBugs (tracker_Search now items) comps k =
        Inr (map bug (filter (\<lambda>it. in_scope comps it \<and> k <s ID (bug it)) items))"
    by (simp add: getNewBugs_def tracker_Search_def)
qed

lemma example_item_in_scope: "in_scope [''etcd''] (example_item n t)"
  by (simp add: in_scope_def example_item_def example_bug_def)

text \<open>Items 99, 101 and 103, created on the days 10, 20 and 44, searched on day 45: with
  the cursor 100 the scanner returns 101 and 103, with the cursor 0 only 103.\<close>

theorem scanner_selects_witness:
  "(0::go_int) <s 100 \<and>
   getNewBugs (tracker_Search (45 * Day)
                 [example_item 99 (10 * Day), example_item 101 (20 * Day), example_item 103 (44 * Day)])
     [''etcd''] 100 = Inr [example_bug 101 ''NEW'' [], example_bug 103 ''NEW'' []] \<and>
   getNewBugs (tracker_Search (45 * Day)
                 [example_item 99 (10 * Day), example_item 101 (20 * Day), example_item 103 (44 * Day)])
     [''etcd''] 0 = Inr [example_bug 103 ''NEW'' []]"
proof -
  let ?items = "[example_item 99 (10 * Day), example_item 101 (20 * Day),
                 example_item 103 (44 * Day)]"
  note t = scanner_selects [of "45 * Day" ?items "[''etcd'']" 100]
  have p: "(0::go_int) <s 100" by (simp add: word_sless_alt)
  have f: "bug (example_item n d) = example_bug n ''NEW'' []"
    "creation_ts (example_item n d) = d" "ID (example_bug n s a) = n" for n d s a
    by (simp_all add: example_item_def example_bug_def)
  from t p have "getNewBugs (tracker_Search (45 * Day) ?items) [''etcd''] 100 =
      Inr (map bug (filter (\<lambda>it. in_scope [''etcd''] it \<and> 100 <s ID (bug it)) ?items))"
    by blast
  then have a: "getNewBugs (tracker_Search (45 * Day) ?items) [''etcd''] 100 =
      Inr [example_bug 101 ''NEW'' [], example_bug 103 ''NEW'' []]"
    by (simp add: example_item_in_scope f)
  from t have "getNewBugs (tracker_Search (45 * Day) ?items) [''etcd''] 0 =
      Inr (map bug (filter (\<lambda>it. in_scope [''etcd''] it \<and> 45 * Day - 7 * 24 * Hour \<le> creation_ts it)
             ?items))"
    by blast
  then have b: "getNewBugs (tracker_Search (45 * Day) ?items) [''etcd''] 0 =
      Inr [example_bug 103 ''NEW'' []]"
    by (simp add: example_item_in_scope f Day_def Hour_def)
  from p a b show ?thesis by simp
qed

section \<open>Properties of the closed-bug count report\<close>

text \<open>
  Claim C10. When the tracker's list of closed bugs is empty, \<^verbatim>\<open>Report\<close> returns the empty
  string and no error, and \<^verbatim>\<open>sync\<close> returns no error and posts nothing: its only call is
  the fetch of the list.
\<close>

theorem closed_report_empty:
  assumes "BugList_result env = Inr []"
  shows "fst (closed_Report c env) = ([], None) \<and>
         fst (closed_sync c env) = None \<and>
         channel_messages (snd (closed_sync c env)) = [] \<and>
         snd (closed_sync c env) =
           [BugList (Name (config_Lists_Closed c)) (SharerID (config_Lists_Closed c))]"
  using assms by (simp add: closed_sync_def closed_Report_def Let_def)

theorem closed_report_empty_witness:
  "BugList_result (example_closed_env []) = Inr [] \<and>
   fst (closed_Report example_closed_reporter (example_closed_env [])) = ([], None) \<and>
   closed_sync example_closed_reporter (example_closed_env []) = (None, [BugList ''closed'' ''1''])"
proof -
  have h: "BugList_result (example_closed_env []) = Inr []"
    by (simp add: example_closed_env_def)
  show ?thesis
    using closed_report_empty [OF h, of example_closed_reporter] h
    by (simp add: prod_eq_iff example_closed_reporter_def)
qed

end
